theory Spec2Isabelle
  imports Complex_Main "HOL-Library.AList" "HOL-Library.Sublist" "HOL-Library.Log_Nat"
begin

section \<open>Chain query client (backend/services/solana\_rpc.py)\<close>

text \<open>
  A delay is a float; the delays computed here, \<open>initial_delay * 2 ** attempt\<close> from
  5.0, are small integers, which floats hold exactly, so they are written as rationals.

  \<^verbatim>\<open>call_solana_rpc\<close> posts one request per attempt. What the remote node answers
  is outside the program, so the model takes it as a function from the attempt number
  to what that attempt meets. The branches are those of the source: status 429, an
  \<^verbatim>\<open>aiohttp.ClientError\<close> (raised by the post, by \<^verbatim>\<open>raise_for_status\<close> or by the body
  decoder), an \<^verbatim>\<open>asyncio.TimeoutError\<close>, any other exception, a decoded body holding
  an \<^verbatim>\<open>error\<close> object, and a decoded body holding a \<^verbatim>\<open>result\<close>.
\<close>

datatype 'r attempt_outcome =
    Status_429
  | Raises_ClientError
  | Raises_TimeoutError
  | Raises_Exception
  | Error_Object int string
  | Result 'r

text \<open>
  The exception formatted into the detail of the last generic handler: either the
  \<^verbatim>\<open>HTTPException\<close> built from an RPC error object, or something else.
\<close>

datatype cause = Cause_RPC_Error int string | Cause_Other

datatype detail =
    RPC_Error int string
  | Failed_To_Connect
  | Timed_Out
  | Unexpected_After_Retries cause
  | Failed_After_Attempts int

datatype http_exception = HTTPException (status_code: nat) (detail: detail)

type_synonym 'r rpc_run = "(http_exception + 'r) \<times> rat list"

text \<open>\<^verbatim>\<open>await asyncio.sleep(delay)\<close> followed by the rest of the loop: the delay is recorded.\<close>

definition sleep_then :: "rat \<Rightarrow> 'r rpc_run \<Rightarrow> 'r rpc_run" where
  "sleep_then delay run = (fst run, delay # snd run)"

text \<open>
  The loop \<^verbatim>\<open>for attempt in range(retries)\<close>, from attempt number \<open>attempt\<close> on.
  A 429 sleeps and continues on every attempt. The three \<^verbatim>\<open>except\<close> clauses sleep only
  when \<^verbatim>\<open>attempt < retries - 1\<close> and raise otherwise. The \<^verbatim>\<open>HTTPException\<close> raised
  for an error object is raised inside the \<^verbatim>\<open>try\<close>, it is neither a \<^verbatim>\<open>ClientError\<close>
  nor a \<^verbatim>\<open>TimeoutError\<close>, so the clause \<^verbatim>\<open>except Exception\<close> handles it.
  After the loop the function raises the status 500 of line 60.
\<close>

function rpc_attempts ::
  "(nat \<Rightarrow> 'r attempt_outcome) \<Rightarrow> int \<Rightarrow> rat \<Rightarrow> nat \<Rightarrow> 'r rpc_run" where
  "rpc_attempts remote retries initial_delay attempt =
     (if int attempt < retries then
        (case remote attempt of
           Status_429 \<Rightarrow>
             sleep_then (initial_delay * 2 ^ attempt)
               (rpc_attempts remote retries initial_delay (Suc attempt))
         | Result r \<Rightarrow> (Inr r, [])
         | Raises_ClientError \<Rightarrow>
             (if int attempt < retries - 1
              then sleep_then (initial_delay * 2 ^ attempt)
                     (rpc_attempts remote retries initial_delay (Suc attempt))
              else (Inl (HTTPException 503 Failed_To_Connect), []))
         | Raises_TimeoutError \<Rightarrow>
             (if int attempt < retries - 1
              then sleep_then (initial_delay * 2 ^ attempt)
                     (rpc_attempts remote retries initial_delay (Suc attempt))
              else (Inl (HTTPException 504 Timed_Out), []))
         | Raises_Exception \<Rightarrow>
             (if int attempt < retries - 1
              then sleep_then (initial_delay * 2 ^ attempt)
                     (rpc_attempts remote retries initial_delay (Suc attempt))
              else (Inl (HTTPException 500 (Unexpected_After_Retries Cause_Other)), []))
         | Error_Object code msg \<Rightarrow>
             (if int attempt < retries - 1
              then sleep_then (initial_delay * 2 ^ attempt)
                     (rpc_attempts remote retries initial_delay (Suc attempt))
              else (Inl (HTTPException 500
                      (Unexpected_After_Retries (Cause_RPC_Error code msg))), [])))
      else (Inl (HTTPException 500 (Failed_After_Attempts retries)), []))"
  by pat_completeness auto
termination
  by (relation "measure (\<lambda>(remote, retries, initial_delay, attempt). nat (retries - int attempt))")
     auto

declare rpc_attempts.simps [simp del]

definition call_solana_rpc ::
  "(nat \<Rightarrow> 'r attempt_outcome) \<Rightarrow> int \<Rightarrow> rat \<Rightarrow> 'r rpc_run" where
  "call_solana_rpc remote retries initial_delay = rpc_attempts remote retries initial_delay 0"

text \<open>The call with the defaults of the signature: \<^verbatim>\<open>retries=3, initial_delay=5.0\<close>.\<close>

definition call_solana_rpc_default :: "(nat \<Rightarrow> 'r attempt_outcome) \<Rightarrow> 'r rpc_run" where
  "call_solana_rpc_default remote = call_solana_rpc remote 3 5"

text \<open>The failures the specification calls retryable.\<close>

definition transient :: "'r attempt_outcome \<Rightarrow> bool" where
  "transient x = (x = Status_429 \<or> x = Raises_ClientError \<or> x = Raises_TimeoutError)"

text \<open>Remote nodes used as concrete inputs.\<close>

definition rate_limited_thrice :: "nat \<Rightarrow> string attempt_outcome" where
  "rate_limited_thrice k = (if k < 3 then Status_429 else Result ''ok'')"

definition rate_limited_twice :: "nat \<Rightarrow> string attempt_outcome" where
  "rate_limited_twice k = (if k < 2 then Status_429 else Result ''ok'')"

definition rejected_once :: "nat \<Rightarrow> string attempt_outcome" where
  "rejected_once k = (if k = 0 then Error_Object (- 32602) ''Invalid params'' else Result ''ok'')"

section \<open>Connection registry and monitoring orchestrator (backend/api/websocket\_manager.py)\<close>

text \<open>
  A transport handle is a \<^verbatim>\<open>WebSocket\<close> object; the source compares handles with
  \<^verbatim>\<open>==\<close>, which on these objects is identity, so a handle is modelled by a number.
  A background task is a number too: the value \<^verbatim>\<open>asyncio.create_task\<close> returned.
\<close>

type_synonym websocket = nat
type_synonym task = nat

text \<open>
  The fields of \<^verbatim>\<open>WalletManager.__init__\<close> that the operations below read or write.
  Dictionaries keep insertion order, so \<^verbatim>\<open>active_connections\<close> is an association list
  and \<^verbatim>\<open>tracked_wallets\<close> the list of its keys. The last three fields are not fields of
  the object but the part of the event loop the operations depend on: \<open>loop_tasks\<close>
  holds the tasks running \<^verbatim>\<open>_monitor_wallets_periodically\<close> that were created and have
  not finished, \<open>tasks_created\<close> numbers the next task, and \<open>current_task\<close> is the
  monitor-loop task inside which the current operation runs (\<^verbatim>\<open>asyncio.current_task()\<close>),
  or \<open>None\<close> when it runs in a request or connection handler or at startup.
\<close>

record wallet_manager =
  active_connections :: "(string \<times> websocket) list"
  tracked_wallets :: "string list"
  is_monitoring :: bool
  monitor_task :: "task option"
  TOKEN_CONTRACT :: string
  loop_tasks :: "task list"
  tasks_created :: nat
  current_task :: "task option"

definition new_manager :: "string \<Rightarrow> wallet_manager" where
  "new_manager token =
     \<lparr>active_connections = [], tracked_wallets = [], is_monitoring = False,
      monitor_task = None, TOKEN_CONTRACT = token, loop_tasks = [], tasks_created = 0,
      current_task = None\<rparr>"

text \<open>
  \<^verbatim>\<open>connect\<close> after a successful \<^verbatim>\<open>accept\<close>. The identifier is \<^verbatim>\<open>str(uuid.uuid4())\<close>,
  drawn outside the program; assigning to a dictionary key replaces the value of a
  key already present and appends a new key otherwise.
\<close>

definition connect :: "string \<Rightarrow> websocket \<Rightarrow> wallet_manager \<Rightarrow> wallet_manager" where
  "connect client_id websocket s =
     s\<lparr>active_connections := AList.update client_id websocket (active_connections s)\<rparr>"

definition start_monitoring :: "wallet_manager \<Rightarrow> wallet_manager" where
  "start_monitoring s =
     (if \<not> is_monitoring s
      then s\<lparr>is_monitoring := True,
             monitor_task := Some (tasks_created s),
             loop_tasks := loop_tasks s @ [tasks_created s],
             tasks_created := Suc (tasks_created s)\<rparr>
      else s)"

text \<open>
  \<^verbatim>\<open>stop_monitoring\<close> clears the flag, cancels the task it holds and awaits it.

  Called from another task, the await returns when the monitor task is done: the
  cancellation reaches the loop at its pending await, the loop breaks or is cancelled in
  its final sleep, and the task has finished either way.

  Called inside the monitor task itself (the loop broadcasts, \<^verbatim>\<open>broadcast\<close> prunes the last
  connection, \<^verbatim>\<open>disconnect\<close> calls \<^verbatim>\<open>stop_monitoring\<close>), \<^verbatim>\<open>cancel()\<close> requests the
  cancellation of the running task and the await of the task on itself receives that
  \<^verbatim>\<open>CancelledError\<close>, which line 102 catches. The request is consumed and the task runs
  on: it leaves the event loop only when it next tests \<^verbatim>\<open>while self.is_monitoring\<close>
  and finds the flag off (\<open>loop_test\<close> below).
\<close>

definition stop_monitoring :: "wallet_manager \<Rightarrow> wallet_manager" where
  "stop_monitoring s =
     (if is_monitoring s
      then (case monitor_task s of
              Some t \<Rightarrow>
                if current_task s = Some t
                then s\<lparr>is_monitoring := False, monitor_task := None\<rparr>
                else s\<lparr>is_monitoring := False, monitor_task := None,
                       loop_tasks := removeAll t (loop_tasks s)\<rparr>
            | None \<Rightarrow> s\<lparr>is_monitoring := False\<rparr>)
      else s)"

text \<open>
  The test \<^verbatim>\<open>while self.is_monitoring\<close> made by the live loop task \<open>t\<close> after the sleep
  that ends an iteration: with the flag off the coroutine returns and the task is done.
\<close>

definition loop_test :: "task \<Rightarrow> wallet_manager \<Rightarrow> wallet_manager" where
  "loop_test t s =
     (if t \<in> set (loop_tasks s) \<and> \<not> is_monitoring s
      then s\<lparr>loop_tasks := removeAll t (loop_tasks s)\<rparr>
      else s)"

text \<open>The loop of \<^verbatim>\<open>disconnect\<close>: the key of the first entry that holds the handle.\<close>

fun client_id_to_remove :: "websocket \<Rightarrow> (string \<times> websocket) list \<Rightarrow> string option" where
  "client_id_to_remove websocket [] = None"
| "client_id_to_remove websocket ((cid, ws) # rest) =
     (if ws = websocket then Some cid else client_id_to_remove websocket rest)"

text \<open>
  \<^verbatim>\<open>if client_id_to_remove:\<close> tests the truth value of the key: \<^verbatim>\<open>None\<close> and the empty
  string both skip the deletion.
\<close>

definition disconnect :: "websocket \<Rightarrow> wallet_manager \<Rightarrow> wallet_manager" where
  "disconnect websocket s =
     (let s1 = (case client_id_to_remove websocket (active_connections s) of
                  None \<Rightarrow> s
                | Some cid \<Rightarrow>
                    if cid \<noteq> []
                    then s\<lparr>active_connections := AList.delete cid (active_connections s)\<rparr>
                    else s)
      in if active_connections s1 = [] \<and> is_monitoring s1 then stop_monitoring s1 else s1)"

text \<open>
  What \<^verbatim>\<open>await websocket.send_text(message)\<close> does is decided by the transport:
  it returns, raises \<^verbatim>\<open>RuntimeError\<close>, or raises an exception of another class.
\<close>

datatype send_outcome = Send_Ok | Send_RuntimeError | Send_Other_Error

type_synonym transport = "websocket \<Rightarrow> string \<Rightarrow> send_outcome"

text \<open>
  The result of an operation that sends: whether an exception left the operation,
  the handles whose send returned, the handles collected in \<^verbatim>\<open>disconnected\<close>, and the
  manager afterwards.
\<close>

record send_result =
  raised :: bool
  delivered :: "websocket list"
  pruned :: "websocket list"
  manager :: wallet_manager

definition send_personal_message ::
  "transport \<Rightarrow> string \<Rightarrow> websocket \<Rightarrow> wallet_manager \<Rightarrow> send_result" where
  "send_personal_message send message websocket s =
     (case send websocket message of
        Send_Ok \<Rightarrow> \<lparr>raised = False, delivered = [websocket], pruned = [], manager = s\<rparr>
      | Send_RuntimeError \<Rightarrow>
          \<lparr>raised = False, delivered = [], pruned = [websocket],
           manager = disconnect websocket s\<rparr>
      | Send_Other_Error \<Rightarrow> \<lparr>raised = True, delivered = [], pruned = [], manager = s\<rparr>)"

text \<open>
  The first loop of \<^verbatim>\<open>broadcast\<close> over \<^verbatim>\<open>list(self.active_connections.values())\<close>.
  It returns whether an exception other than \<^verbatim>\<open>RuntimeError\<close> ended the loop, the list
  \<^verbatim>\<open>disconnected\<close> and the handles whose send returned.
\<close>

fun send_pass ::
  "transport \<Rightarrow> string \<Rightarrow> websocket list \<Rightarrow> bool \<times> websocket list \<times> websocket list" where
  "send_pass send message [] = (False, [], [])"
| "send_pass send message (ws # rest) =
     (case send ws message of
        Send_Ok \<Rightarrow>
          (case send_pass send message rest of
             (exc, disconnected, received) \<Rightarrow> (exc, disconnected, ws # received))
      | Send_RuntimeError \<Rightarrow>
          (case send_pass send message rest of
             (exc, disconnected, received) \<Rightarrow> (exc, ws # disconnected, received))
      | Send_Other_Error \<Rightarrow> (True, [], []))"

text \<open>
  \<^verbatim>\<open>broadcast\<close>: the pass over the copy of the values, then one \<^verbatim>\<open>disconnect\<close> per
  collected handle, in order. An exception that leaves the first loop leaves
  \<^verbatim>\<open>broadcast\<close> before the second loop runs.
\<close>

definition broadcast :: "transport \<Rightarrow> string \<Rightarrow> wallet_manager \<Rightarrow> send_result" where
  "broadcast send message s =
     (case send_pass send message (map snd (active_connections s)) of
        (exc, disconnected, received) \<Rightarrow>
          \<lparr>raised = exc, delivered = received, pruned = (if exc then [] else disconnected),
           manager = (if exc then s else fold disconnect disconnected s)\<rparr>)"

text \<open>
  \<^verbatim>\<open>load_tracked_wallets\<close> replaces the cache by a dictionary keyed by the addresses
  read from the database (a key stands where it first occurred) and keeps the cache
  when the read raises.
\<close>

definition load_tracked_wallets :: "string list option \<Rightarrow> wallet_manager \<Rightarrow> wallet_manager" where
  "load_tracked_wallets wallets_data s =
     (case wallets_data of None \<Rightarrow> s | Some addrs \<Rightarrow> s\<lparr>tracked_wallets := rev (remdups (rev addrs))\<rparr>)"

text \<open>
  The operations on the manager, as events, and the states the manager reaches from
  its construction. \<^verbatim>\<open>connect\<close>, \<^verbatim>\<open>disconnect\<close> and \<^verbatim>\<open>send_personal_message\<close> are called
  by the connection handler, \<^verbatim>\<open>start_monitoring\<close> and \<^verbatim>\<open>stop_monitoring\<close> at startup,
  at shutdown and by the control routes. \<^verbatim>\<open>broadcast\<close> is called only inside the monitor
  loop (lines 163 and 211), so its event names the live loop task that runs it.
\<close>

datatype event =
    Connect string websocket
  | Disconnect websocket
  | Send_Personal transport string websocket
  | Loop_Broadcast task transport string
  | Loop_Test task
  | Start_Monitoring
  | Stop_Monitoring
  | Load_Tracked_Wallets "string list option"

fun step :: "event \<Rightarrow> wallet_manager \<Rightarrow> wallet_manager" where
  "step (Connect client_id websocket) s = connect client_id websocket s"
| "step (Disconnect websocket) s = disconnect websocket s"
| "step (Send_Personal send message websocket) s =
     manager (send_personal_message send message websocket s)"
| "step (Loop_Broadcast t send message) s =
     (if t \<in> set (loop_tasks s)
      then (manager (broadcast send message (s\<lparr>current_task := Some t\<rparr>)))
             \<lparr>current_task := None\<rparr>
      else s)"
| "step (Loop_Test t) s = loop_test t s"
| "step Start_Monitoring s = start_monitoring s"
| "step Stop_Monitoring s = stop_monitoring s"
| "step (Load_Tracked_Wallets wallets_data) s = load_tracked_wallets wallets_data s"

definition run :: "string \<Rightarrow> event list \<Rightarrow> wallet_manager" where
  "run token events = fold step events (new_manager token)"

text \<open>Transports and registries used as concrete inputs.\<close>

definition second_is_closed :: transport where
  "second_is_closed ws message = (if ws = 2 then Send_RuntimeError else Send_Ok)"

definition second_breaks :: transport where
  "second_breaks ws message = (if ws = 2 then Send_Other_Error else Send_Ok)"

definition all_closed :: transport where
  "all_closed ws message = Send_RuntimeError"

definition three_clients :: wallet_manager where
  "three_clients = run ''mint'' [Connect ''a'' 1, Connect ''b'' 2, Connect ''c'' 3]"

section \<open>Python floats\<close>

text \<open>
  A Python float is a binary64 number. It is modelled by the rational number it
  denotes, and an operation on floats computes the exact result and rounds it to the
  nearest number with a significand of 53 bits, a tie going to the even significand.
  The exponent is not bounded: results whose magnitude is at least \<open>2 ^ 1024\<close> or
  below \<open>2 ^ - 1022\<close>, where Python overflows or loses bits, are outside the model.
\<close>

text \<open>Rounding to the nearest integer, ties to even.\<close>

definition round_half_even :: "rat \<Rightarrow> int" where
  "round_half_even x =
     (let f = \<lfloor>x\<rfloor>; r = x - of_int f
      in if r < 1 / 2 then f
         else if 1 / 2 < r then f + 1
         else if even f then f else f + 1)"

text \<open>The exponent \<open>e\<close> of a number other than zero: \<open>2 ^ e \<le> \<bar>x\<bar> < 2 ^ (e + 1)\<close>.\<close>

definition binary_exponent :: "rat \<Rightarrow> int" where
  "binary_exponent x =
     (if 1 \<le> \<bar>x\<bar> then bitlen \<lfloor>\<bar>x\<bar>\<rfloor> - 1 else - bitlen (\<lceil>1 / \<bar>x\<bar>\<rceil> - 1))"

definition to_float :: "rat \<Rightarrow> rat" where
  "to_float x =
     (if x = 0 then 0
      else of_int (round_half_even (x / 2 powi (binary_exponent x - 52))) *
           2 powi (binary_exponent x - 52))"

text \<open>\<^verbatim>\<open>float(n)\<close> of an integer, \<^verbatim>\<open>x + y\<close> and \<^verbatim>\<open>x / y\<close> on floats (\<open>y\<close> not zero).\<close>

definition float_of_int :: "int \<Rightarrow> rat" where
  "float_of_int n = to_float (of_int n)"

definition float_add :: "rat \<Rightarrow> rat \<Rightarrow> rat" where
  "float_add x y = to_float (x + y)"

definition float_truediv :: "rat \<Rightarrow> rat \<Rightarrow> rat" where
  "float_truediv x y = to_float (x / y)"

text \<open>
  What repeated \<^verbatim>\<open>acc += x\<close> leaves in \<^verbatim>\<open>acc\<close>, started at \<^verbatim>\<open>0.0\<close>: the sum of the
  list as Python computes it, one addition after the other from the left.
\<close>

definition float_sum :: "rat list \<Rightarrow> rat" where
  "float_sum xs = foldl float_add 0 xs"

section \<open>Persistence gateway (backend/services/db\_service.py, backend/models/pydantic\_models.py)\<close>

text \<open>
  The models of \<^verbatim>\<open>pydantic_models.py\<close>. The generated \<^verbatim>\<open>_id\<close> strings are left out;
  fields of \<^verbatim>\<open>WalletTracker\<close> whose names \<^verbatim>\<open>TokenHolder\<close> has too carry the prefix
  \<open>tracker\<close>. A \<^verbatim>\<open>datetime\<close> is a number of seconds.
\<close>

type_synonym datetime = nat

record token_holder =
  owner :: string
  address :: string
  balance :: rat
  ui_amount :: rat
  percentage :: "rat option"
  decimals :: int

record token_holder_snapshot =
  token_address :: string
  holders :: "token_holder list"
  total_supply :: rat
  holder_count :: nat
  last_updated :: datetime

record wallet_tracker =
  tracker_address :: string
  tracked_since :: datetime
  active :: bool
  tracker_balance :: "rat option"
  token_amount :: "rat option"
  last_transaction :: "datetime option"
  total_buys :: nat
  total_sells :: nat
  profit_loss :: "rat option"

record realtime_transaction =
  signature :: string
  timestamp :: datetime
  wallet :: string
  tx_token_address :: string
  amount :: rat
  action_type :: string
  protocol :: string
  block_time :: nat
  slot :: nat
  from_address :: "string option"
  to_address :: "string option"
  pre_balance :: "rat option"
  post_balance :: "rat option"

text \<open>
  The two collections discovery writes, each keyed by the field its filter names.
\<close>

record database =
  token_holders :: "(string \<times> token_holder_snapshot) list"
  wallets :: "(string \<times> wallet_tracker) list"

text \<open>
  \<^verbatim>\<open>update_one(filter, {"$set": all fields}, upsert=True)\<close>: the document under the key
  is replaced, or inserted when there is none. The functions of \<^verbatim>\<open>db_service\<close> catch
  every exception of the driver and return \<^verbatim>\<open>False\<close>; whether the driver succeeds is
  the first argument.
\<close>

definition update_token_holder_snapshot ::
  "bool \<Rightarrow> token_holder_snapshot \<Rightarrow> database \<Rightarrow> bool \<times> database" where
  "update_token_holder_snapshot driver_ok snapshot db =
     (if driver_ok
      then (True, db\<lparr>token_holders :=
                      AList.update (token_address snapshot) snapshot (token_holders db)\<rparr>)
      else (False, db))"

definition update_or_insert_wallet_tracker ::
  "bool \<Rightarrow> wallet_tracker \<Rightarrow> database \<Rightarrow> bool \<times> database" where
  "update_or_insert_wallet_tracker driver_ok tracker db =
     (if driver_ok
      then (True, db\<lparr>wallets := AList.update (tracker_address tracker) tracker (wallets db)\<rparr>)
      else (False, db))"

section \<open>Holder discovery (backend/services/wallet\_discovery.py)\<close>

text \<open>
  One element of the \<^verbatim>\<open>getProgramAccounts\<close> result, read the way the loop reads it:
  \<^verbatim>\<open>account['pubkey']\<close>, \<^verbatim>\<open>info['owner']\<close> and \<^verbatim>\<open>int(info['tokenAmount']['amount'])\<close>.
  \<open>None\<close> stands for a read that raises (a missing key, an amount \<^verbatim>\<open>int\<close> rejects).
  An owner that is present but false in a condition is the empty string.
\<close>

record token_account =
  pubkey :: "string option"
  info_owner :: "string option"
  info_amount :: "int option"

text \<open>
  The \<^verbatim>\<open>getAccountInfo\<close> result read by \<^verbatim>\<open>get_token_supply\<close>: absent (the result, its
  \<^verbatim>\<open>value\<close> or its \<^verbatim>\<open>data\<close> is false in the condition), parsed into supply and decimals,
  or present with a shape the reads raise on.
\<close>

datatype mint_info = Mint_Parsed int int | Mint_Unreadable

datatype discovery_error = Http http_exception | Unexpected

datatype discovery_outcome =
    No_Accounts_Found
  | Discovered nat
  | Failed_HTTPException http_exception
  | Failed_Unexpected

text \<open>\<^verbatim>\<open>10**decimals\<close>: an integer power, and a float below one for a negative exponent.\<close>

definition pow10 :: "int \<Rightarrow> rat" where
  "pow10 d = (if 0 \<le> d then 10 ^ nat d else 1 / 10 ^ nat (- d))"

text \<open>
  \<^verbatim>\<open>float(raw) / (10**decimals)\<close>: the integer is converted, the divisor is converted
  for the division, and the quotient is rounded.
\<close>

definition ui_amount_of :: "int \<Rightarrow> int \<Rightarrow> rat" where
  "ui_amount_of token_decimals token_amount_raw =
     float_truediv (float_of_int token_amount_raw) (to_float (pow10 token_decimals))"

text \<open>
  \<^verbatim>\<open>get_token_supply\<close> returns \<^verbatim>\<open>{"value": {"uiAmount": .., "decimals": ..}}\<close>, here the
  pair of the two, or \<^verbatim>\<open>None\<close>; every exception, the failures of the call included,
  is caught inside and gives \<^verbatim>\<open>None\<close>.
\<close>

definition get_token_supply ::
  "(nat \<Rightarrow> mint_info option attempt_outcome) \<Rightarrow> (rat \<times> int) option" where
  "get_token_supply remote =
     (case fst (call_solana_rpc_default remote) of
        Inl e \<Rightarrow> None
      | Inr None \<Rightarrow> None
      | Inr (Some Mint_Unreadable) \<Rightarrow> None
      | Inr (Some (Mint_Parsed supply dec)) \<Rightarrow> Some (ui_amount_of dec supply, dec))"

text \<open>Reading \<^verbatim>\<open>owner_balances[owner]\<close> in a \<^verbatim>\<open>defaultdict(float)\<close>.\<close>

definition balance_of :: "(string \<times> rat) list \<Rightarrow> string \<Rightarrow> rat" where
  "balance_of owner_balances k = (case map_of owner_balances k of None \<Rightarrow> 0 | Some b \<Rightarrow> b)"

text \<open>
  The loop over \<^verbatim>\<open>accounts_data\<close> (lines 42 to 54) with its two dictionaries as
  accumulators. A read that raises ends the loop with the exception.
\<close>

fun aggregate ::
  "int \<Rightarrow> token_account list \<Rightarrow> (string \<times> rat) list \<Rightarrow> (string \<times> string) list \<Rightarrow>
   discovery_error + ((string \<times> rat) list \<times> (string \<times> string) list)" where
  "aggregate token_decimals [] owner_balances owner_token_accounts =
     Inr (owner_balances, owner_token_accounts)"
| "aggregate token_decimals (account # rest) owner_balances owner_token_accounts =
     (case pubkey account of
        None \<Rightarrow> Inl Unexpected
      | Some pk \<Rightarrow>
     (case info_owner account of
        None \<Rightarrow> Inl Unexpected
      | Some own \<Rightarrow>
     (case info_amount account of
        None \<Rightarrow> Inl Unexpected
      | Some token_amount_raw \<Rightarrow>
          (if own \<noteq> [] \<and> 0 < ui_amount_of token_decimals token_amount_raw
           then aggregate token_decimals rest
                  (AList.update own
                     (float_add (balance_of owner_balances own)
                        (ui_amount_of token_decimals token_amount_raw))
                     owner_balances)
                  (if map_of owner_token_accounts own = None
                   then AList.update own pk owner_token_accounts
                   else owner_token_accounts)
           else aggregate token_decimals rest owner_balances owner_token_accounts))))"

text \<open>Lines 56 to 65: one \<^verbatim>\<open>TokenHolder\<close> per owner whose balance is positive.\<close>

definition holder_of :: "int \<Rightarrow> (string \<times> string) list \<Rightarrow> string \<times> rat \<Rightarrow> token_holder" where
  "holder_of token_decimals owner_token_accounts item =
     \<lparr>owner = fst item,
      address = (case map_of owner_token_accounts (fst item) of
                   None \<Rightarrow> fst item | Some pk \<Rightarrow> pk),
      balance = snd item, ui_amount = snd item, percentage = None,
      decimals = token_decimals\<rparr>"

definition aggregated_holders ::
  "int \<Rightarrow> token_account list \<Rightarrow> discovery_error + token_holder list" where
  "aggregated_holders token_decimals accounts_data =
     (case aggregate token_decimals accounts_data [] [] of
        Inl e \<Rightarrow> Inl e
      | Inr (owner_balances, owner_token_accounts) \<Rightarrow>
          Inr (map (holder_of token_decimals owner_token_accounts)
                 (filter (\<lambda>item. 0 < snd item) owner_balances)))"

text \<open>
  \<^verbatim>\<open>sorted(xs, key=.., reverse=True)\<close> of the Python library: descending by key, and
  elements with equal keys keep their order. The ascending stable insertion sort of
  the list library on the negated key does the same.
\<close>

definition sorted_reverse :: "('a \<Rightarrow> rat) \<Rightarrow> 'a list \<Rightarrow> 'a list" where
  "sorted_reverse key xs = sort_key (\<lambda>x. - key x) xs"

text \<open>The slice \<^verbatim>\<open>xs[:n]\<close>: a negative \<open>n\<close> counts from the end.\<close>

definition slice_to :: "int \<Rightarrow> 'a list \<Rightarrow> 'a list" where
  "slice_to n xs = (if 0 \<le> n then take (nat n) xs else take (length xs - nat (- n)) xs)"

definition tracker_of :: "datetime \<Rightarrow> token_holder \<Rightarrow> wallet_tracker" where
  "tracker_of now holder_model =
     \<lparr>tracker_address = owner holder_model, tracked_since = now, active = True,
      tracker_balance = Some (balance holder_model),
      token_amount = Some (balance holder_model),
      last_transaction = None, total_buys = 0, total_sells = 0, profit_loss = None\<rparr>"

text \<open>
  The loop of lines 83 to 93. \<open>driver_ok k\<close> says whether the \<open>k\<close>-th write of the run
  reaches the database; the snapshot is write 0.
\<close>

fun track_holders ::
  "(nat \<Rightarrow> bool) \<Rightarrow> datetime \<Rightarrow> nat \<Rightarrow> token_holder list \<Rightarrow> database \<Rightarrow> database" where
  "track_holders driver_ok now k [] db = db"
| "track_holders driver_ok now k (holder_model # rest) db =
     track_holders driver_ok now (Suc k) rest
       (snd (update_or_insert_wallet_tracker (driver_ok k) (tracker_of now holder_model) db))"

text \<open>What a run of discovery meets outside the program.\<close>

record world =
  accounts_remote :: "nat \<Rightarrow> token_account list option attempt_outcome"
  mint_remote :: "nat \<Rightarrow> mint_info option attempt_outcome"
  driver_ok :: "nat \<Rightarrow> bool"
  utcnow :: datetime

text \<open>
  The body of the \<^verbatim>\<open>try\<close> of \<^verbatim>\<open>discover_top_wallets\<close>. It raises only before its first
  write: the models built afterwards take values already checked, and the write
  functions return \<^verbatim>\<open>False\<close> instead of raising.
\<close>

definition discover_body ::
  "world \<Rightarrow> string \<Rightarrow> int \<Rightarrow> database \<Rightarrow> discovery_error + (discovery_outcome \<times> database)" where
  "discover_body w mint_address top_n db =
     (case fst (call_solana_rpc_default (accounts_remote w)) of
        Inl e \<Rightarrow> Inl (Http e)
      | Inr None \<Rightarrow> Inr (No_Accounts_Found, db)
      | Inr (Some []) \<Rightarrow> Inr (No_Accounts_Found, db)
      | Inr (Some (a # as)) \<Rightarrow>
          (let supply_info = get_token_supply (mint_remote w);
               token_decimals = (case supply_info of None \<Rightarrow> 0 | Some v \<Rightarrow> snd v)
           in case aggregated_holders token_decimals (a # as) of
                Inl e \<Rightarrow> Inl e
              | Inr aggregated \<Rightarrow>
                  (let sorted_holders = sorted_reverse balance aggregated;
                       top_n_holders = slice_to top_n sorted_holders;
                       current_total_supply =
                         (case supply_info of None \<Rightarrow> 0 | Some v \<Rightarrow> fst v);
                       snapshot =
                         \<lparr>token_address = mint_address, holders = top_n_holders,
                          total_supply = current_total_supply,
                          holder_count = length top_n_holders,
                          last_updated = utcnow w\<rparr>;
                       db1 = snd (update_token_holder_snapshot (driver_ok w 0) snapshot db);
                       db2 = track_holders (driver_ok w) (utcnow w) 1 top_n_holders db1
                   in Inr (Discovered (length top_n_holders), db2))))"

text \<open>The function with its two \<^verbatim>\<open>except\<close> clauses: each logs and returns.\<close>

definition discover_top_wallets ::
  "world \<Rightarrow> string \<Rightarrow> int \<Rightarrow> database \<Rightarrow> discovery_outcome \<times> database" where
  "discover_top_wallets w mint_address top_n db =
     (case discover_body w mint_address top_n db of
        Inl (Http e) \<Rightarrow> (Failed_HTTPException e, db)
      | Inl Unexpected \<Rightarrow> (Failed_Unexpected, db)
      | Inr r \<Rightarrow> r)"

text \<open>
  Notions the statements about discovery use: the amount an account counts with, whether
  the loop counts it, and whether reading it raises.
\<close>

definition account_ui :: "int \<Rightarrow> token_account \<Rightarrow> rat" where
  "account_ui d a = (case info_amount a of None \<Rightarrow> 0 | Some raw \<Rightarrow> ui_amount_of d raw)"

definition counted_for :: "int \<Rightarrow> string \<Rightarrow> token_account \<Rightarrow> bool" where
  "counted_for d k a \<longleftrightarrow> k \<noteq> [] \<and> info_owner a = Some k \<and> 0 < account_ui d a"

definition unreadable :: "token_account \<Rightarrow> bool" where
  "unreadable a \<longleftrightarrow> pubkey a = None \<or> info_owner a = None \<or> info_amount a = None"

text \<open>
  The order in which aggregation first sees the owners: the owners of the accounts the
  loop counts, in the order of the accounts, each kept where it first occurs.
\<close>

definition counted_owners :: "int \<Rightarrow> token_account list \<Rightarrow> string list" where
  "counted_owners d accounts =
     concat (map (\<lambda>a. case info_owner a of
                           None \<Rightarrow> []
                         | Some k \<Rightarrow> if counted_for d k a then [k] else []) accounts)"

fun first_seen :: "'a list \<Rightarrow> 'a list" where
  "first_seen [] = []"
| "first_seen (x # xs) = x # filter (\<lambda>y. y \<noteq> x) (first_seen xs)"

text \<open>Concrete inputs for discovery.\<close>

definition acct :: "string \<Rightarrow> string \<Rightarrow> int \<Rightarrow> token_account" where
  "acct pk own raw = \<lparr>pubkey = Some pk, info_owner = Some own, info_amount = Some raw\<rparr>"

definition three_accounts :: "token_account list" where
  "three_accounts = [acct ''a1'' ''A'' 100, acct ''a2'' ''A'' 50, acct ''b1'' ''B'' 30]"

text \<open>
  The same three accounts among accounts the loop skips: a zero amount, a negative
  amount and an empty owner. The owner Z has no other account.
\<close>

definition mixed_accounts :: "token_account list" where
  "mixed_accounts =
     [acct ''z1'' ''Z'' 0, acct ''a1'' ''A'' 100, acct ''n1'' ''B'' (- 7),
      acct ''a2'' ''A'' 50, acct ''o1'' [] 5, acct ''b1'' ''B'' 30]"


text \<open>Three owners of which two hold the same balance; the first of them is seen first.\<close>

definition tied_accounts :: "token_account list" where
  "tied_accounts = [acct ''b1'' ''B'' 30, acct ''a1'' ''A'' 100, acct ''c1'' ''C'' 30]"

definition empty_db :: database where
  "empty_db = \<lparr>token_holders = [], wallets = []\<rparr>"

definition example_world :: world where
  "example_world =
     \<lparr>accounts_remote = (\<lambda>k. Result (Some three_accounts)),
      mint_remote = (\<lambda>k. Result (Some (Mint_Parsed 180 0))),
      driver_ok = (\<lambda>k. True), utcnow = 1000\<rparr>"

definition tied_world :: world where
  "tied_world = example_world\<lparr>accounts_remote := (\<lambda>k. Result (Some tied_accounts))\<rparr>"

definition supply_down_world :: world where
  "supply_down_world = example_world\<lparr>mint_remote := (\<lambda>k. Raises_TimeoutError)\<rparr>"

definition node_down_world :: world where
  "node_down_world = example_world\<lparr>accounts_remote := (\<lambda>k. Status_429)\<rparr>"

definition no_accounts_world :: world where
  "no_accounts_world = example_world\<lparr>accounts_remote := (\<lambda>k. Result (Some []))\<rparr>"

definition malformed_world :: world where
  "malformed_world =
     example_world\<lparr>accounts_remote :=
       (\<lambda>k. Result (Some [acct ''a1'' ''A'' 100,
                             \<lparr>pubkey = Some ''c1'', info_owner = Some ''C'',
                              info_amount = None\<rparr>]))\<rparr>"

definition seeded_db :: database where
  "seeded_db =
     \<lparr>token_holders =
        [(''mint'', \<lparr>token_address = ''mint'', holders = [], total_supply = 7,
                     holder_count = 0, last_updated = 1\<rparr>)],
      wallets = []\<rparr>"

section \<open>Feed generator (WalletManager.\_generate\_and\_broadcast\_mock\_transaction)\<close>

definition PROTOCOL_PROGRAM_IDS :: "(string \<times> string) list" where
  "PROTOCOL_PROGRAM_IDS =
     [(''JUP4Fb2cqiRUcaTHdrPC8h2gNsA2ETXiPDD33WcGuJB'', ''Jupiter''),
      (''JUP6LkbZbjS1jKKwapdHNy74zcZ3tLUZoi5QNyVTaV4'', ''Jupiter''),
      (''675kPX9MHTjS2zt1qfr1NYHuzeLXfQM9H24wFSUt1Mp8'', ''Raydium''),
      (''5quBtoiQqxF9Jv6KYKctB59NT3gtJD2Y65kdnB1Uev3h'', ''Raydium''),
      (''27haf8L6oxUeXrHrgEgsexjSY5hbVUWEmvv9Nyxg8vQv'', ''Raydium''),
      (''9W959DqEETiGZocYWCQPaJ6sBmUzgfxXfqGeTEdp3aQP'', ''Orca''),
      (''whirLbMiicVdio4qvUfM5KAg6Ct8VwpYzGff3uctyCc'', ''Orca''),
      (''DjVE6JNiYqPL2QXyCUUh8rNjHrbz9hXHNYt99MQ59qw1'', ''Orca''),
      (''SwaPpA9LAaLfeLi3a68M4DjnLqgtticKg6CnyNwgAC8'', ''Saber''),
      (''22Y43yTVxuUkoRKdm9thyRhQ3SdgQS7c7kB6UNCiaczD'', ''Serum''),
      (''9xQeWvG816bUx9EPjHmaT23yvVM2ZWbrrpZb9PusVFin'', ''Serum'')]"

text \<open>
  What the generator draws from outside: the numbers the \<^verbatim>\<open>random\<close> module produces,
  the hexadecimal digits of a fresh UUID and the clock. \<^verbatim>\<open>random.random()\<close> is
  \<open>k / 2 ^ 53\<close> for a 53-bit number \<open>k\<close>; the index draws are reduced below the length
  of the sequence by \<open>choice\<close>.
\<close>

record draws =
  wallet_draw :: nat
  action_draw :: nat
  uniform_draw :: nat
  protocol_draw :: nat
  slot_draw :: nat
  uuid4_hex :: string
  time_time :: nat
  now_utc :: datetime

text \<open>\<^verbatim>\<open>random.choice(seq)\<close>; it raises \<^verbatim>\<open>IndexError\<close> on an empty sequence.\<close>

definition choice :: "nat \<Rightarrow> 'a list \<Rightarrow> 'a option" where
  "choice draw seq = (if seq = [] then None else Some (seq ! (draw mod length seq)))"

definition random_float :: "nat \<Rightarrow> rat" where
  "random_float k = of_nat (k mod 2 ^ 53) / 2 ^ 53"

text \<open>\<^verbatim>\<open>random.uniform(a, b)\<close> is \<^verbatim>\<open>a + (b - a) * self.random()\<close>.\<close>

definition uniform :: "rat \<Rightarrow> rat \<Rightarrow> nat \<Rightarrow> rat" where
  "uniform a b k = a + (b - a) * random_float k"

text \<open>\<^verbatim>\<open>round(x, ndigits)\<close>: to the nearest multiple of \<open>10 ^ - ndigits\<close>, ties to even.\<close>

definition py_round :: "rat \<Rightarrow> nat \<Rightarrow> rat" where
  "py_round x ndigits = of_int (round_half_even (x * 10 ^ ndigits)) / 10 ^ ndigits"

text \<open>\<^verbatim>\<open>str(n)\<close> of a natural number.\<close>

function str_of_nat :: "nat \<Rightarrow> string" where
  "str_of_nat n =
     (if n < 10 then [char_of (48 + n)]
      else str_of_nat (n div 10) @ [char_of (48 + n mod 10)])"
  by pat_completeness auto
termination
  by (relation "measure id") auto

declare str_of_nat.simps [simp del]

text \<open>
  Lines 134 to 157: nothing is built when the cache of tracked wallets is empty,
  otherwise one \<^verbatim>\<open>RealtimeTransaction\<close>. A \<^verbatim>\<open>random.choice\<close> that raised would leave the
  function before the record is built.
\<close>

definition mock_transaction :: "draws \<Rightarrow> wallet_manager \<Rightarrow> realtime_transaction option" where
  "mock_transaction d s =
     (if tracked_wallets s = [] then None
      else
        (case choice (wallet_draw d) (tracked_wallets s) of
           None \<Rightarrow> None
         | Some wallet_address \<Rightarrow>
        (case choice (action_draw d) [''buy'', ''sell''] of
           None \<Rightarrow> None
         | Some action \<Rightarrow>
        (case choice (protocol_draw d) (map snd PROTOCOL_PROGRAM_IDS) of
           None \<Rightarrow> None
         | Some label \<Rightarrow>
             Some \<lparr>signature = filter (\<lambda>c. c \<noteq> CHR ''-'') (uuid4_hex d) @ str_of_nat (time_time d),
                   timestamp = now_utc d,
                   wallet = wallet_address,
                   tx_token_address = TOKEN_CONTRACT s,
                   amount = py_round (uniform 10 1000 (uniform_draw d)) 4,
                   action_type = action,
                   protocol = label,
                   block_time = time_time d,
                   slot = 100000000 + slot_draw d mod 100000001,
                   from_address = None, to_address = None,
                   pre_balance = None, post_balance = None\<rparr>))))"

text \<open>
  Concrete inputs for the generator. The uniform draw of \<open>highest_draw\<close> is
  \<open>2 ^ 53 - 1\<close>, the largest there is, and that of \<open>some_draw\<close> is \<open>2 ^ 52\<close>.
\<close>

definition one_wallet :: wallet_manager where
  "one_wallet = load_tracked_wallets (Some [''W1'']) (new_manager ''mint'')"

definition highest_draw :: draws where
  "highest_draw =
     \<lparr>wallet_draw = 0, action_draw = 0, uniform_draw = 9007199254740991, protocol_draw = 0,
      slot_draw = 0, uuid4_hex = ''0f-1e'', time_time = 1700000000, now_utc = 1700000000\<rparr>"

definition some_draw :: draws where
  "some_draw =
     \<lparr>wallet_draw = 7, action_draw = 3, uniform_draw = 4503599627370496, protocol_draw = 8,
      slot_draw = 5, uuid4_hex = ''0f-1e'', time_time = 1700000000, now_utc = 1700000000\<rparr>"

section \<open>Properties of the chain query client\<close>

lemma less_3_iff: "(i::nat) < 3 \<longleftrightarrow> i = 0 \<or> i = Suc 0 \<or> i = Suc (Suc 0)"
  by arith

lemma all_less_3: "(\<forall>i<3::nat. P i) = (P 0 \<and> P (Suc 0) \<and> P (Suc (Suc 0)))"
  unfolding less_3_iff by blast

lemma rpc_attempts_past:
  "\<not> int attempt < retries \<Longrightarrow>
   rpc_attempts remote retries d attempt =
     (Inl (HTTPException 500 (Failed_After_Attempts retries)), [])"
  by (subst rpc_attempts.simps) simp

lemma rpc_attempts_result:
  "int attempt < retries \<Longrightarrow> remote attempt = Result r \<Longrightarrow>
   rpc_attempts remote retries d attempt = (Inr r, [])"
  by (subst rpc_attempts.simps) simp

lemma rpc_attempts_retry:
  "int attempt < retries - 1 \<Longrightarrow> \<forall>r. remote attempt \<noteq> Result r \<Longrightarrow>
   rpc_attempts remote retries d attempt =
     sleep_then (d * 2 ^ attempt) (rpc_attempts remote retries d (Suc attempt))"
  by (subst rpc_attempts.simps) (simp split: attempt_outcome.split)

lemma rpc_attempts_last:
  "int attempt = retries - 1 \<Longrightarrow>
   rpc_attempts remote retries d attempt =
   (case remote attempt of
      Status_429 \<Rightarrow>
        (Inl (HTTPException 500 (Failed_After_Attempts retries)), [d * 2 ^ attempt])
    | Result r \<Rightarrow> (Inr r, [])
    | Raises_ClientError \<Rightarrow> (Inl (HTTPException 503 Failed_To_Connect), [])
    | Raises_TimeoutError \<Rightarrow> (Inl (HTTPException 504 Timed_Out), [])
    | Raises_Exception \<Rightarrow>
        (Inl (HTTPException 500 (Unexpected_After_Retries Cause_Other)), [])
    | Error_Object code msg \<Rightarrow>
        (Inl (HTTPException 500 (Unexpected_After_Retries (Cause_RPC_Error code msg))), []))"
  by (subst rpc_attempts.simps)
     (simp add: rpc_attempts_past sleep_then_def split: attempt_outcome.split)

lemmas rpc_eval = call_solana_rpc_default_def call_solana_rpc_def rpc_attempts_result
  rpc_attempts_retry rpc_attempts_last sleep_then_def

text \<open>The first two attempts either return their result or sleep and go on.\<close>

lemma default_cases:
  "call_solana_rpc_default remote =
    (if \<exists>r. remote 0 = Result r then (Inr (SOME r. remote 0 = Result r), [])
     else if \<exists>r. remote (Suc 0) = Result r
       then (Inr (SOME r. remote (Suc 0) = Result r), [5])
     else sleep_then 5 (sleep_then 10 (rpc_attempts remote 3 5 (Suc (Suc 0)))))"
  by (auto simp: call_solana_rpc_default_def call_solana_rpc_def rpc_attempts_result
      rpc_attempts_retry sleep_then_def)

lemma at_most_three_attempts:
  "(\<forall>i<3. remote i = remote' i) \<Longrightarrow>
   call_solana_rpc_default remote = call_solana_rpc_default remote'"
  by (simp add: default_cases rpc_attempts_last all_less_3)

lemma delays_prefix: "prefix (snd (call_solana_rpc_default remote)) [5, 10, 20]"
  by (simp add: default_cases rpc_attempts_last sleep_then_def split: attempt_outcome.split)

lemma success_within_three:
  assumes "k < 3" "\<forall>i<k. transient (remote i)" "remote k = Result r"
  shows "call_solana_rpc_default remote = (Inr r, map (\<lambda>i. 5 * 2 ^ i) [0..<k])"
proof -
  have nr: "\<forall>r. remote i \<noteq> Result r" if "i < k" for i
    using assms(2) that by (auto simp: transient_def)
  from assms(1) consider "k = 0" | "k = Suc 0" | "k = Suc (Suc 0)"
    by (auto simp: less_3_iff)
  then show ?thesis
  proof cases
    case 1
    with assms(3) show ?thesis by (simp add: rpc_eval)
  next
    case 2
    with assms(3) nr [of 0] show ?thesis by (simp add: rpc_eval)
  next
    case 3
    with assms(3) nr [of 0] nr [of "Suc 0"] show ?thesis
      by (simp add: rpc_eval upt_conv_Cons)
  qed
qed

lemma failure_needs_three_failures:
  assumes "fst (call_solana_rpc_default remote) = Inl e" "i < 3"
  shows "remote i \<noteq> Result r"
proof
  assume res: "remote i = Result r"
  from assms(2) consider "i = 0" | "i = Suc 0" | "i = Suc (Suc 0)"
    by (auto simp: less_3_iff)
  then have "\<exists>r'. fst (call_solana_rpc_default remote) = Inr r'"
  proof cases
    case 1
    with res show ?thesis by (simp add: default_cases)
  next
    case 2
    with res show ?thesis by (simp add: default_cases)
  next
    case 3
    with res show ?thesis by (simp add: default_cases rpc_attempts_last sleep_then_def)
  qed
  with assms(1) show False by simp
qed

lemma three_rate_limits:
  "(\<forall>i<3. remote i = Status_429) \<Longrightarrow>
   call_solana_rpc_default remote =
     (Inl (HTTPException 500 (Failed_After_Attempts 3)), [5, 10, 20])"
  by (simp add: rpc_eval all_less_3)

text \<open>
  C6, as the claim states it, at a concrete remote node: three rate-limit responses and
  then a success. The loop has run its three attempts when the third 429 arrives; the
  fourth request is never posted and the call ends in the status 500 raised after the
  loop, having slept 5, 10 and 20 seconds. The success is not returned.
\<close>

theorem three_rate_limits_then_success_fails:
  "rate_limited_thrice 0 = Status_429 \<and> rate_limited_thrice 1 = Status_429 \<and>
   rate_limited_thrice 2 = Status_429 \<and> rate_limited_thrice 3 = Result ''ok'' \<and>
   call_solana_rpc_default rate_limited_thrice =
     (Inl (HTTPException 500 (Failed_After_Attempts 3)), [5, 10, 20]) \<and>
   fst (call_solana_rpc_default rate_limited_thrice) \<noteq> Inr ''ok''"
  by (simp add: rpc_eval rate_limited_thrice_def)

text \<open>
  C6, amended. With the defaults the call makes at most three attempts: its outcome
  depends on the first three answers only. The delays it performs are a prefix of
  5, 10, 20 seconds. When the first \<open>k < 3\<close> attempts meet a rate limit, a transport
  error or a timeout and attempt \<open>k\<close> succeeds, the call returns that result after the
  delays \<open>5 * 2 ^ i\<close> for \<open>i < k\<close>. Three rate-limit responses end in the terminal
  failure after the delays 5, 10, 20. A failure surfaces only when none of the three
  attempts returned a result.
\<close>

theorem call_solana_rpc_retry_schedule:
  "((\<forall>i<3. remote i = remote' i) \<longrightarrow>
      call_solana_rpc_default remote = call_solana_rpc_default remote') \<and>
   prefix (snd (call_solana_rpc_default remote)) [5, 10, 20] \<and>
   (k < 3 \<and> (\<forall>i<k. transient (remote i)) \<and> remote k = Result r \<longrightarrow>
      call_solana_rpc_default remote = (Inr r, map (\<lambda>i. 5 * 2 ^ i) [0..<k])) \<and>
   ((\<forall>i<3. remote i = Status_429) \<longrightarrow>
      call_solana_rpc_default remote =
        (Inl (HTTPException 500 (Failed_After_Attempts 3)), [5, 10, 20])) \<and>
   (fst (call_solana_rpc_default remote) = Inl e \<longrightarrow>
      (\<forall>i<3. \<forall>r. remote i \<noteq> Result r))"
  using at_most_three_attempts [of remote remote'] delays_prefix [of remote]
    success_within_three [of k remote r] three_rate_limits [of remote]
    failure_needs_three_failures [of remote e]
  by blast

theorem call_solana_rpc_retry_schedule_witness:
  "call_solana_rpc_default rate_limited_twice = (Inr ''ok'', [5, 10]) \<and>
   call_solana_rpc_default rate_limited_thrice =
     (Inl (HTTPException 500 (Failed_After_Attempts 3)), [5, 10, 20]) \<and>
   rate_limited_thrice 0 \<noteq> Result ''ok'' \<and> rate_limited_thrice 1 \<noteq> Result ''ok'' \<and>
   rate_limited_thrice 2 \<noteq> Result ''ok''"
proof -
  have two: "(2::nat) < 3 \<and> (\<forall>i<2. transient (rate_limited_twice i)) \<and>
      rate_limited_twice 2 = Result ''ok''"
    by (simp add: rate_limited_twice_def transient_def)
  have three: "\<forall>i<3. rate_limited_thrice i = Status_429"
    by (simp add: rate_limited_thrice_def)
  have upt: "map (\<lambda>i. 5 * 2 ^ i) [0..<2] = [5, 10 :: rat]"
    by (simp add: upt_conv_Cons numeral_2_eq_2)
  note a = call_solana_rpc_retry_schedule
    [where remote = rate_limited_twice and remote' = rate_limited_twice and k = 2
       and r = "''ok''"]
  note b = call_solana_rpc_retry_schedule
    [where remote = rate_limited_thrice and remote' = rate_limited_thrice
       and e = "HTTPException 500 (Failed_After_Attempts 3)"]
  from a two upt have first: "call_solana_rpc_default rate_limited_twice = (Inr ''ok'', [5, 10])"
    by simp
  from b three have second: "call_solana_rpc_default rate_limited_thrice =
      (Inl (HTTPException 500 (Failed_After_Attempts 3)), [5, 10, 20])"
    by blast
  from b second have "\<forall>i<3. \<forall>r. rate_limited_thrice i \<noteq> Result r"
    by simp
  then have "rate_limited_thrice 0 \<noteq> Result ''ok'' \<and> rate_limited_thrice 1 \<noteq> Result ''ok'' \<and>
      rate_limited_thrice 2 \<noteq> Result ''ok''"
    by simp
  with first second show ?thesis by simp
qed

text \<open>
  C7 at a concrete remote node: the first answer carries an RPC error object, the
  second a result. The claim has the call surface the error on the first attempt with
  no delay. The source raises the typed failure inside the \<^verbatim>\<open>try\<close> block, the clause
  \<^verbatim>\<open>except Exception\<close> catches it, sleeps 5 seconds and retries: the call returns the
  second answer.
\<close>

theorem rpc_error_object_is_retried:
  "rejected_once 0 = Error_Object (- 32602) ''Invalid params'' \<and>
   call_solana_rpc_default rejected_once = (Inr ''ok'', [5])"
  by (simp add: rpc_eval rejected_once_def)

section \<open>Properties of Python floats\<close>

lemma round_half_even_cases:
  "round_half_even x = \<lfloor>x\<rfloor> \<or> (round_half_even x = \<lfloor>x\<rfloor> + 1 \<and> of_int \<lfloor>x\<rfloor> < x)"
  by (auto simp: round_half_even_def Let_def)

lemma round_half_even_lower:
  assumes "of_int m \<le> x"
  shows "m \<le> round_half_even x"
proof -
  have "m \<le> \<lfloor>x\<rfloor>" using assms by (simp add: le_floor_iff)
  with round_half_even_cases [of x] show ?thesis by auto
qed

lemma round_half_even_upper:
  assumes "x \<le> of_int m"
  shows "round_half_even x \<le> m"
proof -
  have fl: "\<lfloor>x\<rfloor> \<le> m" using assms by (simp add: floor_le_iff)
  from round_half_even_cases [of x] show ?thesis
  proof
    assume "round_half_even x = \<lfloor>x\<rfloor>"
    with fl show ?thesis by simp
  next
    assume r: "round_half_even x = \<lfloor>x\<rfloor> + 1 \<and> of_int \<lfloor>x\<rfloor> < x"
    with assms have "of_int \<lfloor>x\<rfloor> < (of_int m :: rat)" by linarith
    then have "\<lfloor>x\<rfloor> < m" by simp
    with r show ?thesis by simp
  qed
qed

lemma round_half_even_near:
  assumes "of_int n - 1 / 2 < x" "x < of_int n + 1 / 2"
  shows "round_half_even x = n"
proof (cases "of_int n \<le> x")
  case True
  with assms have "\<lfloor>x\<rfloor> = n" by (intro floor_unique) auto
  with assms show ?thesis by (simp add: round_half_even_def Let_def)
next
  case False
  with assms have "\<lfloor>x\<rfloor> = n - 1" by (intro floor_unique) auto
  with assms show ?thesis by (simp add: round_half_even_def Let_def)
qed

lemma round_half_even_of_int: "round_half_even (of_int m) = m"
  by (simp add: round_half_even_def)

lemma bitlen_positive:
  assumes "0 < n"
  shows "0 < bitlen n"
proof -
  from assms have "\<not> n \<le> 0" by simp
  then have "bitlen n \<noteq> 0" unfolding bitlen_eq_zero_iff .
  with bitlen_nonneg [of n] show ?thesis by simp
qed

text \<open>The exponent of a positive number is not above its logarithm.\<close>

lemma binary_exponent_lower:
  assumes "0 < x"
  shows "2 powi binary_exponent x \<le> x"
proof (cases "1 \<le> x")
  case True
  then have n: "0 < \<lfloor>x\<rfloor>" by simp
  from bitlen_bounds [OF n] have "2 ^ nat (bitlen \<lfloor>x\<rfloor> - 1) \<le> \<lfloor>x\<rfloor>" by simp
  then have "(of_int (2 ^ nat (bitlen \<lfloor>x\<rfloor> - 1)) :: rat) \<le> of_int \<lfloor>x\<rfloor>"
    by (simp only: of_int_le_iff)
  also have "\<dots> \<le> x" by simp
  finally have "(2 :: rat) ^ nat (bitlen \<lfloor>x\<rfloor> - 1) \<le> x" by simp
  moreover have "0 \<le> bitlen \<lfloor>x\<rfloor> - 1"
    using bitlen_positive [OF n] by simp
  ultimately show ?thesis
    using True assms by (simp add: binary_exponent_def power_int_def)
next
  case False
  with assms have inv: "1 < 1 / x" by simp
  define m where "m = \<lceil>1 / x\<rceil>"
  have m2: "2 \<le> m" using inv unfolding m_def by linarith
  then have pos: "0 < m - 1" by simp
  from bitlen_bounds [OF pos] have "m - 1 < 2 ^ nat (bitlen (m - 1))" by simp
  then have "m \<le> 2 ^ nat (bitlen (m - 1))" by simp
  then have "(of_int m :: rat) \<le> of_int (2 ^ nat (bitlen (m - 1)))"
    by (simp only: of_int_le_iff)
  then have "(of_int m :: rat) \<le> 2 ^ nat (bitlen (m - 1))" by simp
  moreover have "1 / x \<le> of_int m" unfolding m_def by simp
  ultimately have "1 / x \<le> 2 ^ nat (bitlen (m - 1))" by linarith
  then have "1 \<le> x * 2 ^ nat (bitlen (m - 1))"
    using assms by (simp add: field_simps)
  then have "inverse 2 ^ nat (bitlen (m - 1)) \<le> x"
    by (simp add: field_simps power_inverse [symmetric] del: power_inverse)
  moreover have "0 < bitlen (m - 1)" using pos by (rule bitlen_positive)
  ultimately show ?thesis
    using False assms by (simp add: binary_exponent_def power_int_def m_def)
qed

text \<open>Rounding never takes a positive number to zero.\<close>

lemma to_float_positive:
  assumes "0 < x"
  shows "0 < to_float x"
proof -
  let ?s = "binary_exponent x - 52"
  have "(2 :: rat) powi (52 + ?s) = 2 powi 52 * 2 powi ?s"
    by (rule power_int_add) simp
  then have "2 powi 52 * 2 powi ?s = (2 :: rat) powi binary_exponent x"
    by simp
  also have "\<dots> \<le> x" using assms by (rule binary_exponent_lower)
  finally have "(2 :: rat) powi 52 \<le> x / 2 powi ?s"
    by (simp add: field_simps)
  moreover have "(1 :: rat) \<le> 2 powi 52" by (simp add: power_int_def)
  ultimately have "1 \<le> x / 2 powi ?s" by linarith
  then have "of_int 1 \<le> x / 2 powi ?s" by (simp only: of_int_1)
  then have "1 \<le> round_half_even (x / 2 powi ?s)" by (rule round_half_even_lower)
  then have "(0 :: rat) < of_int (round_half_even (x / 2 powi ?s))" by simp
  moreover have "(0 :: rat) < 2 powi ?s" by simp
  ultimately show ?thesis using assms by (simp add: to_float_def)
qed

text \<open>Integers below \<open>2 ^ 53\<close> in magnitude are floats.\<close>

lemma to_float_of_int:
  assumes "\<bar>n\<bar> < 2 ^ 53"
  shows "to_float (of_int n) = of_int n"
proof (cases "n = 0")
  case True
  then show ?thesis by (simp add: to_float_def)
next
  case False
  then have pos: "0 < \<bar>n\<bar>" by simp
  have a: "\<bar>of_int n :: rat\<bar> = of_int \<bar>n\<bar>" by simp
  have f: "\<lfloor>\<bar>of_int n :: rat\<bar>\<rfloor> = \<bar>n\<bar>" by (simp only: a floor_of_int)
  have "(1 :: rat) \<le> \<bar>of_int n\<bar>" using pos by simp
  then have e: "binary_exponent (of_int n) = bitlen \<bar>n\<bar> - 1"
    by (simp only: binary_exponent_def f if_True)
  have le: "bitlen \<bar>n\<bar> \<le> 53"
    using assms by (simp add: bitlen_le_iff_power)
  define k where "k = nat (53 - bitlen \<bar>n\<bar>)"
  have k: "binary_exponent (of_int n) - 52 = - int k"
    using e le by (simp add: k_def)
  have "(of_int n :: rat) / 2 powi (- int k) = of_int (n * 2 ^ k)"
    by (simp add: power_int_minus field_simps)
  then have "round_half_even (of_int n / 2 powi (- int k)) = n * 2 ^ k"
    by (simp only: round_half_even_of_int)
  then show ?thesis
    using False by (simp add: to_float_def k power_int_minus)
qed

lemma to_float_numeral:
  "numeral k < (9007199254740992 :: int) \<Longrightarrow> to_float (numeral k) = numeral k"
  using to_float_of_int [of "numeral k"] by simp

lemma to_float_neg_numeral:
  "numeral k < (9007199254740992 :: int) \<Longrightarrow> to_float (- numeral k) = - numeral k"
  using to_float_of_int [of "- numeral k"] by simp

lemma to_float_0: "to_float 0 = 0"
  by (simp add: to_float_def)

lemma to_float_1: "to_float 1 = 1"
  using to_float_of_int [of 1] by simp

lemmas float_eval = float_of_int_def float_add_def float_truediv_def float_sum_def
  to_float_numeral to_float_neg_numeral to_float_0 to_float_1

text \<open>Adding positive floats to a float that is not negative gives a positive float.\<close>

lemma foldl_float_add_positive:
  "0 \<le> acc \<Longrightarrow> xs \<noteq> [] \<Longrightarrow> \<forall>x\<in>set xs. 0 < x \<Longrightarrow> 0 < foldl float_add acc xs"
proof (induction xs arbitrary: acc)
  case Nil
  then show ?case by simp
next
  case (Cons x xs)
  from Cons.prems have first: "0 < float_add acc x"
    by (simp add: float_add_def to_float_positive)
  show ?case
  proof (cases "xs = []")
    case True
    with first show ?thesis by simp
  next
    case False
    with Cons.IH [of "float_add acc x"] first Cons.prems(3) show ?thesis by simp
  qed
qed

text \<open>The sum of 0.1 and 0.2 is the float above three tenths, as in Python.\<close>

lemma tenths_sum:
  "float_sum [to_float (1 / 10), to_float (2 / 10)] = 1351079888211149 / 4503599627370496"
  by code_simp

section \<open>Properties of the connection registry and the orchestrator\<close>

lemma send_pass_no_exception:
  "\<forall>w\<in>set wss. send w m \<noteq> Send_Other_Error \<Longrightarrow>
   send_pass send m wss =
     (False, filter (\<lambda>w. send w m = Send_RuntimeError) wss, filter (\<lambda>w. send w m = Send_Ok) wss)"
  by (induction wss) (auto split: send_outcome.split)

lemma client_id_to_remove_append:
  "\<forall>c\<in>set pre. snd c \<noteq> w \<Longrightarrow>
   client_id_to_remove w (pre @ (cid, w) # rest) = Some cid"
  by (induction pre) auto

lemma delete_middle:
  "distinct (map fst (pre @ (cid, w) # rest)) \<Longrightarrow>
   AList.delete cid (pre @ (cid, w) # rest) = pre @ rest"
  by (induction pre) (auto simp: image_iff)

lemma disconnect_removes:
  assumes "client_id_to_remove w (active_connections s) = Some cid" "cid \<noteq> []"
    "AList.delete cid (active_connections s) \<noteq> []"
  shows "disconnect w s = s\<lparr>active_connections := AList.delete cid (active_connections s)\<rparr>"
  using assms by (simp add: disconnect_def)

lemma fold_disconnect_prunes:
  assumes "active_connections s = pre @ reg"
    "distinct (map fst (pre @ reg))"
    "[] \<notin> fst ` set (pre @ reg)"
    "\<forall>c\<in>set pre. \<not> failing (snd c)"
    "pre @ filter (\<lambda>c. \<not> failing (snd c)) reg \<noteq> []"
  shows "fold disconnect (map snd (filter (\<lambda>c. failing (snd c)) reg)) s =
         s\<lparr>active_connections := pre @ filter (\<lambda>c. \<not> failing (snd c)) reg\<rparr>"
  using assms
proof (induction reg arbitrary: pre s)
  case Nil
  then show ?case by simp
next
  case (Cons c reg)
  obtain cid w where c: "c = (cid, w)" by (cases c)
  show ?case
  proof (cases "failing w")
    case True
    from Cons.prems(4) True have "\<forall>c\<in>set pre. snd c \<noteq> w" by auto
    then have look: "client_id_to_remove w (active_connections s) = Some cid"
      using Cons.prems(1) c by (simp add: client_id_to_remove_append)
    have del: "AList.delete cid (active_connections s) = pre @ reg"
      using Cons.prems(1,2) c delete_middle [of pre cid w reg] by simp
    have ne: "cid \<noteq> []" using Cons.prems(3) c by force
    have rest_ne: "pre @ reg \<noteq> []"
      using Cons.prems(5) c True by auto
    have d: "disconnect w s = s\<lparr>active_connections := pre @ reg\<rparr>"
      using disconnect_removes [OF look ne] del rest_ne by simp
    have "fold disconnect (map snd (filter (\<lambda>c. failing (snd c)) reg)) (disconnect w s) =
        (disconnect w s)\<lparr>active_connections := pre @ filter (\<lambda>c. \<not> failing (snd c)) reg\<rparr>"
    proof (rule Cons.IH)
      show "active_connections (disconnect w s) = pre @ reg" by (simp add: d)
      show "distinct (map fst (pre @ reg))" using Cons.prems(2) by simp
      show "[] \<notin> fst ` set (pre @ reg)" using Cons.prems(3) by auto
      show "\<forall>c\<in>set pre. \<not> failing (snd c)" by (rule Cons.prems(4))
      show "pre @ filter (\<lambda>c. \<not> failing (snd c)) reg \<noteq> []"
        using Cons.prems(5) c True by simp
    qed
    then show ?thesis using c True by (simp add: d)
  next
    case False
    have "fold disconnect (map snd (filter (\<lambda>c. failing (snd c)) reg)) s =
        s\<lparr>active_connections := (pre @ [c]) @ filter (\<lambda>c. \<not> failing (snd c)) reg\<rparr>"
    proof (rule Cons.IH)
      show "active_connections s = (pre @ [c]) @ reg" using Cons.prems(1) by simp
      show "distinct (map fst ((pre @ [c]) @ reg))" using Cons.prems(2) by simp
      show "[] \<notin> fst ` set ((pre @ [c]) @ reg)" using Cons.prems(3) by simp
      show "\<forall>c\<in>set (pre @ [c]). \<not> failing (snd c)" using Cons.prems(4) False c by auto
      show "(pre @ [c]) @ filter (\<lambda>c. \<not> failing (snd c)) reg \<noteq> []" by simp
    qed
    then show ?thesis using c False by simp
  qed
qed

lemma send_pass_subset:
  "send_pass send m wss = (exc, d, r) \<Longrightarrow> set d \<union> set r \<subseteq> set wss"
  by (induction wss arbitrary: exc d r) (auto split: send_outcome.splits prod.splits)

lemma broadcast_recipients:
  "set (delivered (broadcast send m s)) \<union> set (pruned (broadcast send m s))
     \<subseteq> snd ` set (active_connections s)"
proof -
  obtain exc d r where sp: "send_pass send m (map snd (active_connections s)) = (exc, d, r)"
    by (cases "send_pass send m (map snd (active_connections s))")
  from send_pass_subset [OF sp] show ?thesis
    by (auto simp: broadcast_def sp)
qed

lemma broadcast_prunes:
  assumes dist: "distinct (map fst (active_connections s))"
    and keys: "[] \<notin> fst ` set (active_connections s)"
    and errs: "\<forall>c\<in>set (active_connections s). send (snd c) message \<noteq> Send_Other_Error"
    and some: "length (filter (\<lambda>c. send (snd c) message = Send_RuntimeError)
                 (active_connections s)) < length (active_connections s)"
  shows "broadcast send message s =
    \<lparr>raised = False,
     delivered = map snd (filter (\<lambda>c. send (snd c) message \<noteq> Send_RuntimeError)
                   (active_connections s)),
     pruned = map snd (filter (\<lambda>c. send (snd c) message = Send_RuntimeError)
                   (active_connections s)),
     manager = s\<lparr>active_connections :=
                  filter (\<lambda>c. send (snd c) message \<noteq> Send_RuntimeError)
                    (active_connections s)\<rparr>\<rparr>"
proof -
  let ?conns = "active_connections s"
  let ?closed = "\<lambda>w. send w message = Send_RuntimeError"
  have pass: "send_pass send message (map snd ?conns) =
      (False, filter ?closed (map snd ?conns),
       filter (\<lambda>w. send w message = Send_Ok) (map snd ?conns))"
    using errs by (intro send_pass_no_exception) auto
  have ok: "filter (\<lambda>w. send w message = Send_Ok) (map snd ?conns) =
      map snd (filter (\<lambda>c. \<not> ?closed (snd c)) ?conns)"
  proof -
    have "send (snd c) message = Send_Ok \<longleftrightarrow> \<not> ?closed (snd c)"
      if "c \<in> set ?conns" for c
      using errs that by (cases "send (snd c) message") auto
    then have "filter (\<lambda>c. send (snd c) message = Send_Ok) ?conns =
        filter (\<lambda>c. \<not> ?closed (snd c)) ?conns"
      by (intro filter_cong) auto
    then show ?thesis by (simp add: filter_map comp_def)
  qed
  have closed: "filter ?closed (map snd ?conns) = map snd (filter (\<lambda>c. ?closed (snd c)) ?conns)"
    by (simp add: filter_map comp_def)
  have "length (filter (\<lambda>c. ?closed (snd c)) ?conns) +
      length (filter (\<lambda>c. \<not> ?closed (snd c)) ?conns) = length ?conns"
    by (rule sum_length_filter_compl)
  with some have rest: "[] @ filter (\<lambda>c. \<not> ?closed (snd c)) ?conns \<noteq> []"
    by auto
  have "fold disconnect (map snd (filter (\<lambda>c. ?closed (snd c)) ?conns)) s =
      s\<lparr>active_connections := [] @ filter (\<lambda>c. \<not> ?closed (snd c)) ?conns\<rparr>"
    using dist keys rest by (intro fold_disconnect_prunes) auto
  then show ?thesis
    by (simp add: broadcast_def pass ok closed)
qed

lemma three_clients_eval:
  "three_clients = \<lparr>active_connections = [(''a'', 1), (''b'', 2), (''c'', 3)],
     tracked_wallets = [], is_monitoring = False, monitor_task = None,
     TOKEN_CONTRACT = ''mint'', loop_tasks = [], tasks_created = 0,
     current_task = None\<rparr>"
  by (simp add: three_clients_def run_def new_manager_def connect_def)

text \<open>
  C1, as the claim states it, at a concrete registry of three connections of which the
  second fails during send with an exception that is not a \<^verbatim>\<open>RuntimeError\<close>: the
  exception leaves \<^verbatim>\<open>broadcast\<close>, nothing is removed from the registry and the third
  connection, which has not failed, receives nothing.
\<close>

theorem broadcast_propagates_other_exceptions:
  "length (active_connections three_clients) = 3 \<and>
   second_breaks 1 ''tick'' = Send_Ok \<and> second_breaks 2 ''tick'' = Send_Other_Error \<and>
   second_breaks 3 ''tick'' = Send_Ok \<and>
   broadcast second_breaks ''tick'' three_clients =
     \<lparr>raised = True, delivered = [1], pruned = [], manager = three_clients\<rparr>"
  by (simp add: three_clients_eval broadcast_def second_breaks_def)

text \<open>
  C1, amended. A broadcast to a registry (distinct, non-empty client ids) in which
  every send either returns or raises \<^verbatim>\<open>RuntimeError\<close>, and at least one returns:
  no exception leaves \<^verbatim>\<open>broadcast\<close>; the pass runs over the values the registry held
  before the call; the \<open>m\<close> connections whose send raised are exactly the ones removed
  afterwards and nothing else of the manager changes; the other \<open>n - m\<close> each received
  the message; and whatever a later broadcast sends to or prunes is one of those
  \<open>n - m\<close> connections.
\<close>

theorem broadcast_prunes_closed_connections:
  assumes "distinct (map fst (active_connections s))"
    and "[] \<notin> fst ` set (active_connections s)"
    and "\<forall>c\<in>set (active_connections s). send (snd c) message \<noteq> Send_Other_Error"
    and "length (filter (\<lambda>c. send (snd c) message = Send_RuntimeError)
           (active_connections s)) < length (active_connections s)"
  shows "let closed = (\<lambda>c. send (snd c) message = Send_RuntimeError);
             remaining = filter (\<lambda>c. \<not> closed c) (active_connections s);
             n = length (active_connections s);
             m = length (filter closed (active_connections s));
             r = broadcast send message s
         in \<not> raised r \<and>
            pruned r = map snd (filter closed (active_connections s)) \<and>
            delivered r = map snd remaining \<and>
            manager r = s\<lparr>active_connections := remaining\<rparr> \<and>
            length (pruned r) = m \<and>
            length (delivered r) = n - m \<and>
            length (active_connections (manager r)) = n - m \<and>
            (\<forall>send' message'.
               set (delivered (broadcast send' message' (manager r))) \<union>
               set (pruned (broadcast send' message' (manager r))) \<subseteq> set (delivered r))"
proof -
  let ?closed = "\<lambda>c. send (snd c) message = Send_RuntimeError"
  let ?remaining = "filter (\<lambda>c. \<not> ?closed c) (active_connections s)"
  note b = broadcast_prunes [where s = s and send = send and message = message, OF assms]
  have len: "length ?remaining =
      length (active_connections s) - length (filter ?closed (active_connections s))"
    using sum_length_filter_compl [of ?closed "active_connections s"] by simp
  have next_pass: "set (delivered (broadcast send' message' (s\<lparr>active_connections := ?remaining\<rparr>))) \<union>
      set (pruned (broadcast send' message' (s\<lparr>active_connections := ?remaining\<rparr>)))
      \<subseteq> set (map snd ?remaining)" for send' message'
    using broadcast_recipients [of send' message' "s\<lparr>active_connections := ?remaining\<rparr>"]
    by simp
  show ?thesis
    unfolding Let_def b using len next_pass by simp
qed

theorem broadcast_prunes_closed_connections_witness:
  "raised (broadcast second_is_closed ''tick'' three_clients) = False \<and>
   delivered (broadcast second_is_closed ''tick'' three_clients) = [1, 3] \<and>
   pruned (broadcast second_is_closed ''tick'' three_clients) = [2] \<and>
   active_connections (manager (broadcast second_is_closed ''tick'' three_clients)) =
     [(''a'', 1), (''c'', 3)]"
proof -
  have conns: "active_connections three_clients = [(''a'', 1), (''b'', 2), (''c'', 3)]"
    by (simp add: three_clients_eval)
  have h1: "distinct (map fst (active_connections three_clients))"
    by (simp add: conns)
  have h2: "[] \<notin> fst ` set (active_connections three_clients)"
    by (simp add: conns)
  have h3: "\<forall>c\<in>set (active_connections three_clients).
      second_is_closed (snd c) ''tick'' \<noteq> Send_Other_Error"
    by (simp add: conns second_is_closed_def)
  have h4: "length (filter (\<lambda>c. second_is_closed (snd c) ''tick'' = Send_RuntimeError)
      (active_connections three_clients)) < length (active_connections three_clients)"
    by (simp add: conns second_is_closed_def)
  from broadcast_prunes_closed_connections
    [where s = three_clients and send = second_is_closed and message = "''tick''",
     OF h1 h2 h3 h4]
  show ?thesis
    by (simp add: Let_def conns second_is_closed_def)
qed

lemma start_when_active: "is_monitoring s \<Longrightarrow> start_monitoring s = s"
  by (simp add: start_monitoring_def)

lemma stop_when_inactive: "\<not> is_monitoring s \<Longrightarrow> stop_monitoring s = s"
  by (simp add: stop_monitoring_def)

lemma start_activates: "is_monitoring (start_monitoring s)"
  by (simp add: start_monitoring_def)

lemma stop_deactivates: "\<not> is_monitoring (stop_monitoring s)"
  by (simp add: stop_monitoring_def split: option.split)

lemma flag_disconnect: "is_monitoring (disconnect w s) \<Longrightarrow> is_monitoring s"
  by (auto simp: disconnect_def Let_def stop_monitoring_def split: option.splits if_splits)

lemma flag_fold_disconnect: "is_monitoring (fold disconnect ws s) \<Longrightarrow> is_monitoring s"
  by (induction ws arbitrary: s) (auto dest: flag_disconnect)

lemma flag_step: "is_monitoring (step e s) \<Longrightarrow> is_monitoring s \<or> e = Start_Monitoring"
  by (cases e)
     (auto simp: connect_def send_personal_message_def broadcast_def load_tracked_wallets_def
        stop_monitoring_def loop_test_def
        dest: flag_disconnect flag_fold_disconnect
        split: send_outcome.splits prod.splits option.splits if_splits)

lemma flag_fold_step:
  "is_monitoring (fold step es s) \<Longrightarrow> is_monitoring s \<or> Start_Monitoring \<in> set es"
  by (induction es arbitrary: s) (auto dest: flag_step)

lemma flag_run: "is_monitoring (run token es) \<Longrightarrow> Start_Monitoring \<in> set es"
  using flag_fold_step [of es "new_manager token"]
  by (simp add: run_def new_manager_def)

lemma disconnect_empty_stops:
  "active_connections (disconnect w s) = [] \<Longrightarrow> \<not> is_monitoring (disconnect w s)"
  by (auto simp: disconnect_def Let_def stop_monitoring_def split: option.splits if_splits)

lemma disconnect_last:
  "active_connections s = [(cid, w)] \<Longrightarrow> cid \<noteq> [] \<Longrightarrow>
   active_connections (disconnect w s) = [] \<and> \<not> is_monitoring (disconnect w s)"
  by (auto simp: disconnect_def Let_def stop_monitoring_def split: option.splits if_splits)

lemma connect_first:
  "active_connections s = [] \<Longrightarrow>
   active_connections (connect cid w s) = [(cid, w)] \<and>
   is_monitoring (connect cid w s) = is_monitoring s"
  by (simp add: connect_def)

text \<open>
  C2, as the claim states it, at the state reached by one \<^verbatim>\<open>connect\<close>: a connection is
  registered and monitoring is not active, so \<open>active\<close> is not equivalent to
  \<open>explicitly started or at least one connection registered\<close>.
\<close>

theorem connection_registered_monitoring_inactive:
  "active_connections (run ''mint'' [Connect ''a'' 1]) = [(''a'', 1)] \<and>
   \<not> is_monitoring (run ''mint'' [Connect ''a'' 1])"
  by (simp add: run_def new_manager_def connect_def)

text \<open>
  C2, amended. In every reachable state monitoring is active only if
  \<^verbatim>\<open>start_monitoring\<close> was called, and that call makes it active. Registering a
  connection never changes the flag, so the transition from zero to one connection
  does not start monitoring. Whenever \<^verbatim>\<open>disconnect\<close> leaves the registry empty,
  monitoring is stopped afterwards; in particular when the only connection is removed.
\<close>

theorem monitoring_follows_explicit_start:
  "(is_monitoring (run token events) \<longrightarrow> Start_Monitoring \<in> set events) \<and>
   is_monitoring (start_monitoring s) \<and>
   is_monitoring (connect cid w s) = is_monitoring s \<and>
   (active_connections s = [] \<longrightarrow> active_connections (connect cid w s) = [(cid, w)]) \<and>
   (active_connections (disconnect w s) = [] \<longrightarrow> \<not> is_monitoring (disconnect w s)) \<and>
   (active_connections s = [(cid, w)] \<and> cid \<noteq> [] \<longrightarrow>
      active_connections (disconnect w s) = [] \<and> \<not> is_monitoring (disconnect w s))"
  using flag_run [of token events] start_activates [of s] connect_first [of s cid w]
    disconnect_empty_stops [of w s] disconnect_last [of s cid w]
  by (simp add: connect_def)

theorem monitoring_follows_explicit_start_witness:
  "is_monitoring (run ''mint'' [Start_Monitoring, Connect ''a'' 1]) \<and>
   Start_Monitoring \<in> set [Start_Monitoring, Connect ''a'' 1] \<and>
   active_connections (run ''mint'' [Start_Monitoring, Connect ''a'' 1]) = [(''a'', 1)] \<and>
   active_connections (disconnect 1 (run ''mint'' [Start_Monitoring, Connect ''a'' 1])) = [] \<and>
   \<not> is_monitoring (disconnect 1 (run ''mint'' [Start_Monitoring, Connect ''a'' 1])) \<and>
   active_connections (connect ''a'' 1 (new_manager ''mint'')) = [(''a'', 1)] \<and>
   \<not> is_monitoring (connect ''a'' 1 (new_manager ''mint''))"
proof -
  let ?s = "run ''mint'' [Start_Monitoring, Connect ''a'' 1]"
  have act: "is_monitoring ?s"
    by (simp add: run_def new_manager_def connect_def start_monitoring_def)
  have one: "active_connections ?s = [(''a'', 1)]"
    by (simp add: run_def new_manager_def connect_def start_monitoring_def)
  have none: "active_connections (new_manager ''mint'') = []"
    "\<not> is_monitoring (new_manager ''mint'')"
    by (simp_all add: new_manager_def)
  note a = monitoring_follows_explicit_start
    [where token = "''mint''" and events = "[Start_Monitoring, Connect ''a'' 1]"
       and s = ?s and cid = "''a''" and w = 1]
  note b = monitoring_follows_explicit_start
    [where token = "''mint''" and events = "[]" and s = "new_manager ''mint''"
       and cid = "''a''" and w = 1]
  from a act one have "Start_Monitoring \<in> set [Start_Monitoring, Connect ''a'' 1]"
    and "active_connections (disconnect 1 ?s) = []"
    and "\<not> is_monitoring (disconnect 1 ?s)"
    by simp_all
  moreover from b none have "active_connections (connect ''a'' 1 (new_manager ''mint'')) = [(''a'', 1)]"
    and "\<not> is_monitoring (connect ''a'' 1 (new_manager ''mint''))"
    by simp_all
  ultimately show ?thesis using act one by simp
qed

text \<open>
  C9 at a concrete run. Monitoring is started, one client connects, and the monitor
  loop (task 0) broadcasts to it while its socket is closed: \<^verbatim>\<open>broadcast\<close> prunes the
  connection, \<^verbatim>\<open>disconnect\<close> finds the registry empty and calls \<^verbatim>\<open>stop_monitoring\<close>
  inside task 0, which catches its own cancellation and goes on to its sleep. A
  \<^verbatim>\<open>start_monitoring\<close> before task 0 tests the flag again creates task 1, and task 0 then
  finds the flag on and keeps looping. The claim has at most one monitor task in every
  reachable state; here two are alive.
\<close>

theorem self_stopped_loop_survives:
  "loop_tasks (run ''mint''
     [Start_Monitoring, Connect ''a'' 1, Loop_Broadcast 0 all_closed ''tick'']) = [0] \<and>
   \<not> is_monitoring (run ''mint''
     [Start_Monitoring, Connect ''a'' 1, Loop_Broadcast 0 all_closed ''tick'']) \<and>
   monitor_task (run ''mint''
     [Start_Monitoring, Connect ''a'' 1, Loop_Broadcast 0 all_closed ''tick'']) = None \<and>
   loop_tasks (run ''mint''
     [Start_Monitoring, Connect ''a'' 1, Loop_Broadcast 0 all_closed ''tick'',
      Start_Monitoring, Loop_Test 0]) = [0, 1] \<and>
   is_monitoring (run ''mint''
     [Start_Monitoring, Connect ''a'' 1, Loop_Broadcast 0 all_closed ''tick'',
      Start_Monitoring, Loop_Test 0]) \<and>
   monitor_task (run ''mint''
     [Start_Monitoring, Connect ''a'' 1, Loop_Broadcast 0 all_closed ''tick'',
      Start_Monitoring, Loop_Test 0]) = Some 1"
  by (simp add: run_def new_manager_def start_monitoring_def connect_def broadcast_def
      all_closed_def disconnect_def stop_monitoring_def loop_test_def)

section \<open>Properties of holder discovery\<close>

lemma aggregate_unreadable:
  "\<exists>a\<in>set accs. unreadable a \<Longrightarrow> aggregate d accs ob ota = Inl Unexpected"
proof (induction accs arbitrary: ob ota)
  case Nil
  then show ?case by simp
next
  case (Cons a accs)
  show ?case
  proof (cases "unreadable a")
    case True
    then show ?thesis by (auto simp: unreadable_def split: option.split)
  next
    case False
    with Cons.prems have "\<exists>a\<in>set accs. unreadable a" by simp
    from Cons.IH [OF this] False show ?thesis
      by (auto simp: unreadable_def)
  qed
qed

lemma aggregate_readable:
  "aggregate d accs ob ota = Inr r \<Longrightarrow> a \<in> set accs \<Longrightarrow> \<not> unreadable a"
  using aggregate_unreadable [of accs d ob ota] by auto


lemma counted_for_owner:
  "info_owner a = Some own \<Longrightarrow> counted_for d k a \<longleftrightarrow> k = own \<and> own \<noteq> [] \<and> 0 < account_ui d a"
  by (auto simp: counted_for_def)

lemma balance_of_update:
  "balance_of (AList.update own v ob) k = (if k = own then v else balance_of ob k)"
  by (simp add: balance_of_def update_conv')

lemma aggregate_inv:
  assumes "aggregate d accs ob ota = Inr (ob', ota')" "distinct (map fst ob)"
  shows "distinct (map fst ob') \<and>
    fst ` set ob' = fst ` set ob \<union> {k. \<exists>a\<in>set accs. counted_for d k a} \<and>
    map fst ob' =
      map fst ob @ filter (\<lambda>k. k \<notin> fst ` set ob) (first_seen (counted_owners d accs)) \<and>
    (\<forall>k. balance_of ob' k =
       foldl float_add (balance_of ob k)
         (map (account_ui d) (filter (counted_for d k) accs))) \<and>
    (\<forall>k. map_of ota' k =
       (case map_of ota k of
          Some pk \<Rightarrow> Some pk
        | None \<Rightarrow> (case find (counted_for d k) accs of None \<Rightarrow> None | Some a \<Rightarrow> pubkey a)))"
  using assms
proof (induction accs arbitrary: ob ota)
  case Nil
  then show ?case by (auto simp: counted_owners_def split: option.split)
next
  case (Cons a accs)
  from Cons.prems(1) have "\<not> unreadable a"
    using aggregate_readable [of d "a # accs" ob ota _ a] by simp
  then obtain pk own raw where a: "pubkey a = Some pk" "info_owner a = Some own"
      "info_amount a = Some raw"
    by (auto simp: unreadable_def)
  have ui: "account_ui d a = ui_amount_of d raw"
    by (simp add: account_ui_def a)
  have owners: "counted_owners d (a # accs) =
      (if counted_for d own a then [own] else []) @ counted_owners d accs"
    by (simp add: counted_owners_def a)
  show ?case
  proof (cases "own \<noteq> [] \<and> 0 < account_ui d a")
    case True
    let ?ob1 = "AList.update own (float_add (balance_of ob own) (account_ui d a)) ob"
    let ?ota1 = "if map_of ota own = None then AList.update own pk ota else ota"
    from Cons.prems(1) True have rec: "aggregate d accs ?ob1 ?ota1 = Inr (ob', ota')"
      by (simp add: a ui)
    have d1: "distinct (map fst ?ob1)"
      using Cons.prems(2) by (rule distinct_update)
    note ih = Cons.IH [OF rec d1]
    have cnt: "counted_for d k a \<longleftrightarrow> k = own" for k
      using True by (simp add: counted_for_owner [OF a(2)])
    have keys: "fst ` set ob' = fst ` set ob \<union> {k. \<exists>a\<in>set (a # accs). counted_for d k a}"
      using ih by (auto simp: dom_update cnt)
    have bal: "balance_of ob' k =
        foldl float_add (balance_of ob k)
          (map (account_ui d) (filter (counted_for d k) (a # accs)))" for k
      using ih by (simp add: balance_of_update cnt)
    have order: "map fst ob' = map fst ob @
        filter (\<lambda>k. k \<notin> fst ` set ob) (first_seen (counted_owners d (a # accs)))"
    proof (cases "own \<in> fst ` set ob")
      case True
      then have "filter (\<lambda>k. k \<noteq> own \<and> k \<notin> fst ` set ob) xs =
          filter (\<lambda>k. k \<notin> fst ` set ob) xs" for xs
        by (intro filter_cong) auto
      with ih True show ?thesis
        by (simp add: owners cnt update_keys dom_update insert_absorb conj_commute)
    next
      case False
      have "filter (\<lambda>k. k \<notin> insert own (fst ` set ob)) xs =
          filter (\<lambda>k. k \<notin> fst ` set ob \<and> k \<noteq> own) xs" for xs
        by (intro filter_cong) auto
      with ih False show ?thesis
        by (simp add: owners cnt update_keys dom_update)
    qed
    have acc: "map_of ota' k =
       (case map_of ota k of
          Some pk \<Rightarrow> Some pk
        | None \<Rightarrow> (case find (counted_for d k) (a # accs) of None \<Rightarrow> None | Some a \<Rightarrow> pubkey a))" for k
      using ih by (auto simp: update_conv' cnt a split: option.splits)
    from ih keys bal acc order show ?thesis by blast
  next
    case False
    from Cons.prems(1) False have rec: "aggregate d accs ob ota = Inr (ob', ota')"
      by (auto simp: a ui)
    note ih = Cons.IH [OF rec Cons.prems(2)]
    have cnt: "\<not> counted_for d k a" for k
      using False by (auto simp: counted_for_owner [OF a(2)])
    have keys: "fst ` set ob' = fst ` set ob \<union> {k. \<exists>a\<in>set (a # accs). counted_for d k a}"
      using ih by (simp add: cnt)
    have order: "map fst ob' = map fst ob @
        filter (\<lambda>k. k \<notin> fst ` set ob) (first_seen (counted_owners d (a # accs)))"
      using ih by (simp add: owners cnt)
    have bal: "balance_of ob' k =
        foldl float_add (balance_of ob k)
          (map (account_ui d) (filter (counted_for d k) (a # accs)))" for k
      using ih by (simp add: cnt)
    have acc: "map_of ota' k =
       (case map_of ota k of
          Some pk \<Rightarrow> Some pk
        | None \<Rightarrow> (case find (counted_for d k) (a # accs) of None \<Rightarrow> None | Some a \<Rightarrow> pubkey a))" for k
      using ih by (simp add: cnt split: option.split)
    from ih keys bal acc order show ?thesis by blast
  qed
qed

lemma counted_sum_positive:
  assumes "a \<in> set accs" "counted_for d k a"
  shows "0 < float_sum (map (account_ui d) (filter (counted_for d k) accs))"
  unfolding float_sum_def
proof (rule foldl_float_add_positive)
  show "(0 :: rat) \<le> 0" by simp
  from assms show "map (account_ui d) (filter (counted_for d k) accs) \<noteq> []"
    by (auto simp: filter_empty_conv)
  show "\<forall>x\<in>set (map (account_ui d) (filter (counted_for d k) accs)). 0 < x"
    by (auto simp: counted_for_def)
qed

lemma aggregated_holders_spec:
  assumes agg: "aggregated_holders d accounts = Inr hs"
  shows "distinct (map owner hs)"
    and "set (map owner hs) = {k. \<exists>a\<in>set accounts. counted_for d k a}"
    and "h \<in> set hs \<Longrightarrow>
         balance h = float_sum (map (account_ui d) (filter (counted_for d (owner h)) accounts))"
    and "map owner hs = first_seen (counted_owners d accounts)"
    and "h \<in> set hs \<Longrightarrow> ui_amount h = balance h \<and> decimals h = d"
    and "h \<in> set hs \<Longrightarrow>
         \<exists>a. find (counted_for d (owner h)) accounts = Some a \<and> pubkey a = Some (address h)"
proof -
  from agg obtain ob ota where run: "aggregate d accounts [] [] = Inr (ob, ota)"
    and hs: "hs = map (holder_of d ota) (filter (\<lambda>item. 0 < snd item) ob)"
    by (auto simp: aggregated_holders_def split: sum.splits)
  have "distinct (map fst ([] :: (string \<times> rat) list))" by simp
  note inv = aggregate_inv [OF run this]
  from inv have dist: "distinct (map fst ob)" by blast
  from inv have "fst ` set ob =
      fst ` set ([] :: (string \<times> rat) list) \<union> {k. \<exists>a\<in>set accounts. counted_for d k a}"
    by blast
  then have keys: "fst ` set ob = {k. \<exists>a\<in>set accounts. counted_for d k a}" by simp
  from inv have "map fst ob = map fst ([] :: (string \<times> rat) list) @
      filter (\<lambda>k. k \<notin> fst ` set ([] :: (string \<times> rat) list))
        (first_seen (counted_owners d accounts))"
    by blast
  then have order: "map fst ob = first_seen (counted_owners d accounts)" by simp
  from inv have "\<forall>k. balance_of ob k =
      foldl float_add (balance_of [] k) (map (account_ui d) (filter (counted_for d k) accounts))"
    by blast
  then have bal: "balance_of ob k =
      float_sum (map (account_ui d) (filter (counted_for d k) accounts))" for k
    by (simp add: balance_of_def float_sum_def)
  from inv have "\<forall>k. map_of ota k =
       (case map_of ([] :: (string \<times> string) list) k of
          Some pk \<Rightarrow> Some pk
        | None \<Rightarrow> (case find (counted_for d k) accounts of None \<Rightarrow> None | Some a \<Rightarrow> pubkey a))"
    by blast
  then have rep: "map_of ota k =
      (case find (counted_for d k) accounts of None \<Rightarrow> None | Some a \<Rightarrow> pubkey a)" for k
    by simp
  have item: "b = float_sum (map (account_ui d) (filter (counted_for d k) accounts)) \<and> 0 < b"
    if "(k, b) \<in> set ob" for k b
  proof -
    from that dist have "map_of ob k = Some b" by simp
    then have b: "b = float_sum (map (account_ui d) (filter (counted_for d k) accounts))"
      using bal [of k] by (simp add: balance_of_def)
    from that keys obtain a where "a \<in> set accounts" "counted_for d k a" by force
    from counted_sum_positive [OF this] b show ?thesis by simp
  qed
  then have all: "filter (\<lambda>item. 0 < snd item) ob = ob"
    by (intro filter_True) auto
  have hs': "hs = map (holder_of d ota) ob" by (simp add: hs all)
  have owners: "map owner hs = map fst ob"
    by (simp add: hs' holder_of_def comp_def)
  show "distinct (map owner hs)" by (simp add: owners dist)
  show "map owner hs = first_seen (counted_owners d accounts)" by (simp add: owners order)
  show "set (map owner hs) = {k. \<exists>a\<in>set accounts. counted_for d k a}"
    using keys by (simp add: owners)
  {
    assume "h \<in> set hs"
    then obtain k b where kb: "(k, b) \<in> set ob" and h: "h = holder_of d ota (k, b)"
      by (auto simp: hs')
    from item [OF kb] h
    show "balance h = float_sum (map (account_ui d) (filter (counted_for d (owner h)) accounts))"
      by (simp add: holder_of_def)
    from h show "ui_amount h = balance h \<and> decimals h = d"
      by (simp add: holder_of_def)
    from kb keys obtain a0 where a0: "a0 \<in> set accounts" "counted_for d k a0" by force
    then obtain a where f: "find (counted_for d k) accounts = Some a"
      by (cases "find (counted_for d k) accounts") (auto simp: find_None_iff)
    then have "a \<in> set accounts" by (auto simp: find_Some_iff)
    with aggregate_readable [OF run] obtain pk where pk: "pubkey a = Some pk"
      by (auto simp: unreadable_def)
    from rep [of k] f pk have "map_of ota k = Some pk" by simp
    with h have "address h = pk" "owner h = k" by (simp_all add: holder_of_def)
    with f pk
    show "\<exists>a. find (counted_for d (owner h)) accounts = Some a \<and> pubkey a = Some (address h)"
      by simp
  }
qed

lemmas discovery_eval =
  discover_top_wallets_def discover_body_def get_token_supply_def aggregated_holders_def
  balance_of_def pow10_def ui_amount_of_def float_eval holder_of_def sorted_reverse_def slice_to_def
  update_token_holder_snapshot_def update_or_insert_wallet_tracker_def tracker_of_def
  acct_def three_accounts_def mixed_accounts_def empty_db_def seeded_db_def example_world_def
  supply_down_world_def node_down_world_def no_accounts_world_def

lemma example_accounts_call:
  "fst (call_solana_rpc_default (accounts_remote example_world)) = Inr (Some three_accounts)"
  by (simp add: rpc_eval example_world_def)

lemma example_aggregated:
  "aggregated_holders 0 three_accounts =
     Inr [\<lparr>owner = ''A'', address = ''a1'', balance = 150, ui_amount = 150,
           percentage = None, decimals = 0\<rparr>,
          \<lparr>owner = ''B'', address = ''b1'', balance = 30, ui_amount = 30,
           percentage = None, decimals = 0\<rparr>]"
  by (simp add: discovery_eval)





lemma tied_run:
  "discover_top_wallets tied_world ''mint'' 2 empty_db =
   (Discovered 2,
    \<lparr>token_holders =
       [(''mint'',
         \<lparr>token_address = ''mint'',
          holders =
            [\<lparr>owner = ''A'', address = ''a1'', balance = 100, ui_amount = 100,
              percentage = None, decimals = 0\<rparr>,
             \<lparr>owner = ''B'', address = ''b1'', balance = 30, ui_amount = 30,
              percentage = None, decimals = 0\<rparr>],
          total_supply = 180, holder_count = 2, last_updated = 1000\<rparr>)],
     wallets =
       [(''A'', \<lparr>tracker_address = ''A'', tracked_since = 1000, active = True,
                 tracker_balance = Some 100, token_amount = Some 100,
                 last_transaction = None, total_buys = 0, total_sells = 0,
                 profit_loss = None\<rparr>),
        (''B'', \<lparr>tracker_address = ''B'', tracked_since = 1000, active = True,
                 tracker_balance = Some 30, token_amount = Some 30,
                 last_transaction = None, total_buys = 0, total_sells = 0,
                 profit_loss = None\<rparr>)]\<rparr>)"
  by (simp add: discovery_eval rpc_eval tied_world_def tied_accounts_def)

lemma track_holders_token_holders:
  "token_holders (track_holders ok now k hs db) = token_holders db"
  by (induction hs arbitrary: k db) (simp_all add: update_or_insert_wallet_tracker_def)

lemma sorted_reverse_descending:
  "sorted_wrt (\<lambda>a b. key b \<le> key a) (sorted_reverse key xs)"
proof -
  have "sorted (map (\<lambda>x. - key x) (sort_key (\<lambda>x. - key x) xs))"
    by (rule sorted_sort_key)
  then show ?thesis
    by (simp add: sorted_reverse_def sorted_map)
qed

lemma sorted_reverse_stable:
  "filter (\<lambda>x. key x = k) (sorted_reverse key xs) = filter (\<lambda>x. key x = k) xs"
  using sort_key_stable [of "\<lambda>x. - key x" "- k" xs]
  by (simp add: sorted_reverse_def)

lemma slice_to_prefix: "prefix (slice_to n xs) xs"
  by (simp add: slice_to_def take_is_prefix)

lemma slice_to_length: "0 \<le> n \<Longrightarrow> int (length (slice_to n xs)) \<le> n"
  by (simp add: slice_to_def)

lemma sorted_wrt_prefix: "prefix xs ys \<Longrightarrow> sorted_wrt R ys \<Longrightarrow> sorted_wrt R xs"
  by (auto simp: prefix_def sorted_wrt_append)

lemma discover_body_success:
  assumes "discover_body w mint top_n db = Inr (Discovered n, db')"
  obtains a as aggregated where
    "fst (call_solana_rpc_default (accounts_remote w)) = Inr (Some (a # as))"
    "aggregated_holders
       (case get_token_supply (mint_remote w) of None \<Rightarrow> 0 | Some v \<Rightarrow> snd v) (a # as) =
     Inr aggregated"
    "n = length (slice_to top_n (sorted_reverse balance aggregated))"
    "db' = track_holders (driver_ok w) (utcnow w) 1
       (slice_to top_n (sorted_reverse balance aggregated))
       (snd (update_token_holder_snapshot (driver_ok w 0)
          \<lparr>token_address = mint,
           holders = slice_to top_n (sorted_reverse balance aggregated),
           total_supply = (case get_token_supply (mint_remote w) of None \<Rightarrow> 0 | Some v \<Rightarrow> fst v),
           holder_count = length (slice_to top_n (sorted_reverse balance aggregated)),
           last_updated = utcnow w\<rparr> db))"
  using assms
  by (auto simp: discover_body_def Let_def split: sum.splits option.splits list.splits)

lemma discover_top_wallets_success:
  "discover_top_wallets w mint top_n db = (Discovered n, db') \<Longrightarrow>
   discover_body w mint top_n db = Inr (Discovered n, db')"
  by (auto simp: discover_top_wallets_def split: sum.splits discovery_error.splits)

text \<open>
  C3. For every run of discovery that completes and whose snapshot write reaches the
  database, with \<open>top_n\<close> a count (not negative): the snapshot stored under the mint
  holds the aggregated holders sorted descending by balance; holders of equal balance
  stand in the order of the aggregated list, which is the order in which the loop
  first saw their owners among the accounts; the sequence has at most \<open>top_n\<close>
  entries; and \<open>holder_count\<close> is its length.
\<close>

theorem persisted_snapshot_ranked:
  assumes run: "discover_top_wallets w mint top_n db = (Discovered n, db')"
    and written: "driver_ok w 0"
    and count: "0 \<le> top_n"
  shows "\<exists>accounts aggregated snapshot.
      fst (call_solana_rpc_default (accounts_remote w)) = Inr (Some accounts) \<and>
      aggregated_holders
        (case get_token_supply (mint_remote w) of None \<Rightarrow> 0 | Some v \<Rightarrow> snd v) accounts =
        Inr aggregated \<and>
      map owner aggregated =
        first_seen (counted_owners
          (case get_token_supply (mint_remote w) of None \<Rightarrow> 0 | Some v \<Rightarrow> snd v) accounts) \<and>
      distinct (map owner aggregated) \<and>
      map_of (token_holders db') mint = Some snapshot \<and>
      sorted_wrt (\<lambda>a b. balance b \<le> balance a) (holders snapshot) \<and>
      (\<forall>k. prefix (filter (\<lambda>h. balance h = k) (holders snapshot))
                  (filter (\<lambda>h. balance h = k) aggregated)) \<and>
      holders snapshot = take (nat top_n) (sorted_reverse balance aggregated) \<and>
      int (length (holders snapshot)) \<le> top_n \<and>
      holder_count snapshot = length (holders snapshot) \<and>
      n = holder_count snapshot"
proof -
  let ?d = "case get_token_supply (mint_remote w) of None \<Rightarrow> 0 | Some v \<Rightarrow> snd v"
  from discover_top_wallets_success [OF run] obtain a as aggregated where
    call: "fst (call_solana_rpc_default (accounts_remote w)) = Inr (Some (a # as))"
    and agg: "aggregated_holders ?d (a # as) = Inr aggregated"
    and n: "n = length (slice_to top_n (sorted_reverse balance aggregated))"
    and db': "db' = track_holders (driver_ok w) (utcnow w) 1
       (slice_to top_n (sorted_reverse balance aggregated))
       (snd (update_token_holder_snapshot (driver_ok w 0)
          \<lparr>token_address = mint,
           holders = slice_to top_n (sorted_reverse balance aggregated),
           total_supply = (case get_token_supply (mint_remote w) of None \<Rightarrow> 0 | Some v \<Rightarrow> fst v),
           holder_count = length (slice_to top_n (sorted_reverse balance aggregated)),
           last_updated = utcnow w\<rparr> db))"
    by (rule discover_body_success)
  let ?top = "slice_to top_n (sorted_reverse balance aggregated)"
  let ?snap = "\<lparr>token_address = mint, holders = ?top,
           total_supply = (case get_token_supply (mint_remote w) of None \<Rightarrow> 0 | Some v \<Rightarrow> fst v),
           holder_count = length ?top, last_updated = utcnow w\<rparr>"
  have stored: "map_of (token_holders db') mint = Some ?snap"
    using written
    by (simp add: db' track_holders_token_holders update_token_holder_snapshot_def update_conv')
  have sorted: "sorted_wrt (\<lambda>a b. balance b \<le> balance a) ?top"
    using slice_to_prefix sorted_reverse_descending by (rule sorted_wrt_prefix)
  have stable: "prefix (filter (\<lambda>h. balance h = k) ?top) (filter (\<lambda>h. balance h = k) aggregated)"
    for k
    using filter_mono_prefix [OF slice_to_prefix, of "\<lambda>h. balance h = k" top_n
        "sorted_reverse balance aggregated"]
    by (simp add: sorted_reverse_stable)
  have len: "int (length ?top) \<le> top_n"
    using count by (rule slice_to_length)
  have cut: "?top = take (nat top_n) (sorted_reverse balance aggregated)"
    using count by (simp add: slice_to_def)
  note spec = aggregated_holders_spec(1,4) [OF agg]
  from call agg stored sorted stable len cut n spec show ?thesis
    by (intro exI [of _ "a # as"] exI [of _ aggregated] exI [of _ ?snap]) simp
qed

theorem persisted_snapshot_ranked_witness:
  "driver_ok tied_world 0 \<and> (0 :: int) \<le> 2 \<and>
   fst (discover_top_wallets tied_world ''mint'' 2 empty_db) = Discovered 2 \<and>
   (\<exists>snapshot.
      map_of (token_holders (snd (discover_top_wallets tied_world ''mint'' 2 empty_db)))
        ''mint'' = Some snapshot \<and>
      map (\<lambda>h. (owner h, balance h)) (holders snapshot) = [(''A'', 100), (''B'', 30)] \<and>
      sorted_wrt (\<lambda>a b. balance b \<le> balance a) (holders snapshot) \<and>
      int (length (holders snapshot)) \<le> 2 \<and>
      holder_count snapshot = length (holders snapshot) \<and>
      holder_count snapshot = 2)"
proof -
  have written: "driver_ok tied_world 0"
    by (simp add: tied_world_def example_world_def)
  have count: "(0 :: int) \<le> 2" by simp
  have run: "discover_top_wallets tied_world ''mint'' 2 empty_db =
      (Discovered 2, snd (discover_top_wallets tied_world ''mint'' 2 empty_db))"
    by (simp add: tied_run)
  have outcome: "fst (discover_top_wallets tied_world ''mint'' 2 empty_db) = Discovered 2"
    by (simp add: tied_run)
  have stored: "map (\<lambda>item. (fst item, map (\<lambda>h. (owner h, balance h)) (holders (snd item))))
      (token_holders (snd (discover_top_wallets tied_world ''mint'' 2 empty_db))) =
      [(''mint'', [(''A'', 100), (''B'', 30)])]"
    by (simp add: tied_run)
  from persisted_snapshot_ranked [OF run written count] obtain snapshot where
    snap: "map_of (token_holders (snd (discover_top_wallets tied_world ''mint'' 2 empty_db)))
       ''mint'' = Some snapshot"
    and rest: "sorted_wrt (\<lambda>a b. balance b \<le> balance a) (holders snapshot)"
    "int (length (holders snapshot)) \<le> 2"
    "holder_count snapshot = length (holders snapshot)"
    "holder_count snapshot = 2"
    by auto
  from snap stored
  have "map (\<lambda>h. (owner h, balance h)) (holders snapshot) = [(''A'', 100), (''B'', 30)]"
    by (cases "token_holders (snd (discover_top_wallets tied_world ''mint'' 2 empty_db))")
       (auto split: if_splits)
  with written outcome snap rest show ?thesis by simp
qed



text \<open>
  C5, as the claim states it, at a run in which the supply lookup fails: every attempt
  of its call times out, the failure is caught inside \<^verbatim>\<open>get_token_supply\<close>, the run goes
  on with zero decimals, and it replaces the seeded snapshot and writes two wallet
  records. An error occurred in the run and the persisted state is not as it was.
\<close>

theorem supply_failure_still_persists:
  "fst (call_solana_rpc_default (mint_remote supply_down_world)) =
     Inl (HTTPException 504 Timed_Out) \<and>
   get_token_supply (mint_remote supply_down_world) = None \<and>
   fst (discover_top_wallets supply_down_world ''mint'' 100 seeded_db) = Discovered 2 \<and>
   map (\<lambda>item. (fst item, map owner (holders (snd item)), holder_count (snd item)))
     (token_holders (snd (discover_top_wallets supply_down_world ''mint'' 100 seeded_db))) =
     [(''mint'', [''A'', ''B''], 2)] \<and>
   map fst (wallets (snd (discover_top_wallets supply_down_world ''mint'' 100 seeded_db))) =
     [''A'', ''B''] \<and>
   snd (discover_top_wallets supply_down_world ''mint'' 100 seeded_db) \<noteq> seeded_db"
  by (simp add: discovery_eval rpc_eval)

lemma discovery_call_failure:
  "fst (call_solana_rpc_default (accounts_remote w)) = Inl e \<Longrightarrow>
   discover_top_wallets w mint top_n db = (Failed_HTTPException e, db)"
  by (simp add: discover_top_wallets_def discover_body_def)

lemma discovery_parse_failure:
  assumes "fst (call_solana_rpc_default (accounts_remote w)) = Inr (Some accounts)"
    "\<exists>a\<in>set accounts. unreadable a"
  shows "discover_top_wallets w mint top_n db = (Failed_Unexpected, db)"
proof -
  from assms(2) obtain a as where accounts: "accounts = a # as"
    by (cases accounts) auto
  have "aggregated_holders d accounts = Inl Unexpected" for d
    using aggregate_unreadable [OF assms(2)] by (simp add: aggregated_holders_def)
  then show ?thesis
    using assms(1) by (simp add: discover_top_wallets_def discover_body_def accounts Let_def)
qed

text \<open>
  C5, amended. When the call for the token accounts fails (rate-limit exhaustion,
  transport error, timeout or any other failure the client raises) or one of the
  returned records cannot be read, the exception is caught inside discovery, which
  returns normally, and the holder snapshots and the wallet records are exactly as
  they were before the run.
\<close>

theorem discovery_failure_leaves_database:
  "(fst (call_solana_rpc_default (accounts_remote w)) = Inl e \<longrightarrow>
      discover_top_wallets w mint top_n db = (Failed_HTTPException e, db)) \<and>
   (fst (call_solana_rpc_default (accounts_remote w)) = Inr (Some accounts) \<and>
    (\<exists>a\<in>set accounts. unreadable a) \<longrightarrow>
      discover_top_wallets w mint top_n db = (Failed_Unexpected, db))"
  using discovery_call_failure [of w e mint top_n db]
    discovery_parse_failure [of w accounts mint top_n db]
  by blast

theorem discovery_failure_leaves_database_witness:
  "discover_top_wallets node_down_world ''mint'' 100 seeded_db =
     (Failed_HTTPException (HTTPException 500 (Failed_After_Attempts 3)), seeded_db) \<and>
   discover_top_wallets malformed_world ''mint'' 100 seeded_db = (Failed_Unexpected, seeded_db)"
proof -
  have down: "fst (call_solana_rpc_default (accounts_remote node_down_world)) =
      Inl (HTTPException 500 (Failed_After_Attempts 3))"
    by (simp add: rpc_eval node_down_world_def example_world_def)
  have bad: "fst (call_solana_rpc_default (accounts_remote malformed_world)) =
      Inr (Some [acct ''a1'' ''A'' 100,
                 \<lparr>pubkey = Some ''c1'', info_owner = Some ''C'', info_amount = None\<rparr>])"
    by (simp add: rpc_eval malformed_world_def example_world_def)
  have un: "\<exists>a\<in>set [acct ''a1'' ''A'' 100,
      \<lparr>pubkey = Some ''c1'', info_owner = Some ''C'', info_amount = None\<rparr>]. unreadable a"
    by (simp add: unreadable_def)
  note a = discovery_failure_leaves_database
    [where w = node_down_world and e = "HTTPException 500 (Failed_After_Attempts 3)"
       and mint = "''mint''" and top_n = 100 and db = seeded_db]
  note b = discovery_failure_leaves_database
    [where w = malformed_world and mint = "''mint''" and top_n = 100 and db = seeded_db
       and accounts = "[acct ''a1'' ''A'' 100,
         \<lparr>pubkey = Some ''c1'', info_owner = Some ''C'', info_amount = None\<rparr>]"]
  from a down have "discover_top_wallets node_down_world ''mint'' 100 seeded_db =
     (Failed_HTTPException (HTTPException 500 (Failed_After_Attempts 3)), seeded_db)"
    by blast
  moreover from b bad un
  have "discover_top_wallets malformed_world ''mint'' 100 seeded_db = (Failed_Unexpected, seeded_db)"
    by blast
  ultimately show ?thesis by simp
qed

text \<open>
  C10. When the call for the token accounts returns an absent or an empty result,
  discovery returns at once without an error: it reports that no accounts were found
  and the holder snapshots and the wallet records are exactly as they were, so no
  empty holder list replaces the snapshot of the mint.
\<close>

theorem discovery_without_accounts_writes_nothing:
  "fst (call_solana_rpc_default (accounts_remote w)) = Inr None \<or>
   fst (call_solana_rpc_default (accounts_remote w)) = Inr (Some []) \<Longrightarrow>
   discover_top_wallets w mint top_n db = (No_Accounts_Found, db)"
  by (auto simp: discover_top_wallets_def discover_body_def)

theorem discovery_without_accounts_writes_nothing_witness:
  "fst (call_solana_rpc_default (accounts_remote no_accounts_world)) = Inr (Some []) \<and>
   discover_top_wallets no_accounts_world ''mint'' 100 seeded_db = (No_Accounts_Found, seeded_db)"
proof -
  have none: "fst (call_solana_rpc_default (accounts_remote no_accounts_world)) = Inr (Some [])"
    by (simp add: rpc_eval no_accounts_world_def example_world_def)
  then have "fst (call_solana_rpc_default (accounts_remote no_accounts_world)) = Inr None \<or>
      fst (call_solana_rpc_default (accounts_remote no_accounts_world)) = Inr (Some [])"
    by simp
  from discovery_without_accounts_writes_nothing [OF this] none show ?thesis
    by simp
qed

section \<open>Properties of the feed generator\<close>

lemma random_float_range: "0 \<le> random_float k \<and> random_float k < 1"
proof -
  have "k mod 2 ^ 53 < (2 ^ 53 :: nat)" by simp
  then have "(of_nat (k mod 2 ^ 53) :: rat) < of_nat (2 ^ 53)"
    by (simp only: of_nat_less_iff)
  then show ?thesis by (simp add: random_float_def)
qed

lemma uniform_range: "10 \<le> uniform 10 1000 k \<and> uniform 10 1000 k < 1000"
  using random_float_range [of k] by (simp add: uniform_def)

lemma py_round_range:
  assumes "10 \<le> x" "x \<le> 1000"
  shows "10 \<le> py_round x 4 \<and> py_round x 4 \<le> 1000"
proof -
  have lo: "of_int 100000 \<le> x * 10 ^ 4" using assms(1) by simp
  have hi: "x * 10 ^ 4 \<le> of_int 10000000" using assms(2) by simp
  from round_half_even_lower [OF lo] have "(100000::rat) \<le> of_int (round_half_even (x * 10 ^ 4))"
    by (metis of_int_le_iff of_int_numeral)
  moreover from round_half_even_upper [OF hi]
  have "(of_int (round_half_even (x * 10 ^ 4)) :: rat) \<le> 10000000"
    by (metis of_int_le_iff of_int_numeral)
  ultimately show ?thesis by (simp add: py_round_def field_simps)
qed

lemma labels:
  "set (map snd PROTOCOL_PROGRAM_IDS) = {''Jupiter'', ''Raydium'', ''Orca'', ''Saber'', ''Serum''}"
  by (auto simp: PROTOCOL_PROGRAM_IDS_def)

lemma choice_member: "seq \<noteq> [] \<Longrightarrow> \<exists>x. choice k seq = Some x \<and> x \<in> set seq"
  by (simp add: choice_def)

lemma highest_amount: "py_round (uniform 10 1000 9007199254740991) 4 = 1000"
proof -
  have "round_half_even ((10 + 990 * (9007199254740991 / 9007199254740992)) * 10 ^ 4) =
      10000000"
    by (rule round_half_even_near) simp_all
  then show ?thesis by (simp add: py_round_def uniform_def random_float_def)
qed

lemma mock_transaction_some:
  assumes "tracked_wallets s \<noteq> []"
  obtains w a l where "w \<in> set (tracked_wallets s)" "a \<in> {''buy'', ''sell''}"
    "l \<in> set (map snd PROTOCOL_PROGRAM_IDS)"
    "mock_transaction d s =
       Some \<lparr>signature = filter (\<lambda>c. c \<noteq> CHR ''-'') (uuid4_hex d) @ str_of_nat (time_time d),
             timestamp = now_utc d, wallet = w, tx_token_address = TOKEN_CONTRACT s,
             amount = py_round (uniform 10 1000 (uniform_draw d)) 4,
             action_type = a, protocol = l, block_time = time_time d,
             slot = 100000000 + slot_draw d mod 100000001,
             from_address = None, to_address = None,
             pre_balance = None, post_balance = None\<rparr>"
proof -
  from choice_member [OF assms] obtain w where
    w: "choice (wallet_draw d) (tracked_wallets s) = Some w" "w \<in> set (tracked_wallets s)"
    by blast
  have "[''buy'', ''sell''] \<noteq> []" by simp
  from choice_member [OF this] obtain a where
    a: "choice (action_draw d) [''buy'', ''sell''] = Some a" "a \<in> set [''buy'', ''sell'']"
    by blast
  have "map snd PROTOCOL_PROGRAM_IDS \<noteq> []" by (simp add: PROTOCOL_PROGRAM_IDS_def)
  from choice_member [OF this] obtain l where
    l: "choice (protocol_draw d) (map snd PROTOCOL_PROGRAM_IDS) = Some l"
      "l \<in> set (map snd PROTOCOL_PROGRAM_IDS)"
    by blast
  show ?thesis
  proof (rule that [of w a l])
    show "w \<in> set (tracked_wallets s)" by (rule w(2))
    show "a \<in> {''buy'', ''sell''}" using a(2) by simp
    show "l \<in> set (map snd PROTOCOL_PROGRAM_IDS)" by (rule l(2))
    show "mock_transaction d s =
       Some \<lparr>signature = filter (\<lambda>c. c \<noteq> CHR ''-'') (uuid4_hex d) @ str_of_nat (time_time d),
             timestamp = now_utc d, wallet = w, tx_token_address = TOKEN_CONTRACT s,
             amount = py_round (uniform 10 1000 (uniform_draw d)) 4,
             action_type = a, protocol = l, block_time = time_time d,
             slot = 100000000 + slot_draw d mod 100000001,
             from_address = None, to_address = None,
             pre_balance = None, post_balance = None\<rparr>"
      using assms by (simp add: mock_transaction_def w(1) a(1) l(1))
  qed
qed

lemma one_wallet_cache: "tracked_wallets one_wallet = [''W1'']"
  by (simp add: one_wallet_def load_tracked_wallets_def new_manager_def)

text \<open>
  C8, as the claim states it, with the single tracked wallet W1 and the largest
  uniform draw: \<^verbatim>\<open>random.random()\<close> is below one, \<^verbatim>\<open>uniform(10, 1000)\<close> is below 1000
  by less than half of \<open>10 ^ - 4\<close>, and rounding to four digits gives the amount 1000,
  which is not in the half-open interval.
\<close>

theorem mock_amount_reaches_1000:
  "tracked_wallets one_wallet = [''W1''] \<and>
   random_float (uniform_draw highest_draw) < 1 \<and>
   map_option wallet (mock_transaction highest_draw one_wallet) = Some ''W1'' \<and>
   map_option amount (mock_transaction highest_draw one_wallet) = Some 1000 \<and>
   \<not> (1000 :: rat) < 1000"
proof -
  have wallets: "tracked_wallets one_wallet \<noteq> []" by (simp add: one_wallet_cache)
  obtain w a l where "w \<in> set (tracked_wallets one_wallet)"
    and tx: "mock_transaction highest_draw one_wallet =
       Some \<lparr>signature = filter (\<lambda>c. c \<noteq> CHR ''-'') (uuid4_hex highest_draw) @
                 str_of_nat (time_time highest_draw),
             timestamp = now_utc highest_draw, wallet = w,
             tx_token_address = TOKEN_CONTRACT one_wallet,
             amount = py_round (uniform 10 1000 (uniform_draw highest_draw)) 4,
             action_type = a, protocol = l, block_time = time_time highest_draw,
             slot = 100000000 + slot_draw highest_draw mod 100000001,
             from_address = None, to_address = None,
             pre_balance = None, post_balance = None\<rparr>"
    by (rule mock_transaction_some [OF wallets, of highest_draw])
  then have w: "w = ''W1''" by (simp add: one_wallet_cache)
  have amount: "py_round (uniform 10 1000 (uniform_draw highest_draw)) 4 = 1000"
    by (simp add: highest_draw_def highest_amount)
  show ?thesis
    using random_float_range [of "uniform_draw highest_draw"]
    by (simp add: tx w amount one_wallet_cache)
qed

text \<open>
  C8, amended. With a non-empty cache of tracked wallets every invocation builds one
  transaction record: its wallet is one of the tracked wallets (the wallet itself when
  there is one), its action is buy or sell, its amount lies in the closed interval
  from 10 to 1000, its protocol is a label of the program-id table, that is one of
  Jupiter, Raydium, Orca, Saber and Serum, and its token is the monitored contract.
\<close>

theorem mock_transaction_fields:
  assumes "tracked_wallets s \<noteq> []"
  shows "\<exists>tx. mock_transaction d s = Some tx \<and>
      wallet tx \<in> set (tracked_wallets s) \<and>
      (\<forall>w. tracked_wallets s = [w] \<longrightarrow> wallet tx = w) \<and>
      action_type tx \<in> {''buy'', ''sell''} \<and>
      10 \<le> amount tx \<and> amount tx \<le> 1000 \<and>
      protocol tx \<in> snd ` set PROTOCOL_PROGRAM_IDS \<and>
      protocol tx \<in> {''Jupiter'', ''Raydium'', ''Orca'', ''Saber'', ''Serum''} \<and>
      tx_token_address tx = TOKEN_CONTRACT s"
proof -
  obtain w a l where w: "w \<in> set (tracked_wallets s)" and a: "a \<in> {''buy'', ''sell''}"
    and l: "l \<in> set (map snd PROTOCOL_PROGRAM_IDS)"
    and tx: "mock_transaction d s =
       Some \<lparr>signature = filter (\<lambda>c. c \<noteq> CHR ''-'') (uuid4_hex d) @ str_of_nat (time_time d),
             timestamp = now_utc d, wallet = w, tx_token_address = TOKEN_CONTRACT s,
             amount = py_round (uniform 10 1000 (uniform_draw d)) 4,
             action_type = a, protocol = l, block_time = time_time d,
             slot = 100000000 + slot_draw d mod 100000001,
             from_address = None, to_address = None,
             pre_balance = None, post_balance = None\<rparr>"
    by (rule mock_transaction_some [OF assms, of d])
  have range: "10 \<le> py_round (uniform 10 1000 (uniform_draw d)) 4 \<and>
      py_round (uniform 10 1000 (uniform_draw d)) 4 \<le> 1000"
    using uniform_range [of "uniform_draw d"] by (intro py_round_range) auto
  from l have l5: "l \<in> {''Jupiter'', ''Raydium'', ''Orca'', ''Saber'', ''Serum''}"
    by (simp only: labels)
  from l have l': "l \<in> snd ` set PROTOCOL_PROGRAM_IDS" by simp
  have single: "\<forall>w'. tracked_wallets s = [w'] \<longrightarrow> w = w'"
    using w by auto
  show ?thesis
    unfolding tx using w a range l5 l' single by simp
qed

theorem mock_transaction_fields_witness:
  "tracked_wallets one_wallet = [''W1''] \<and>
   (\<exists>tx. mock_transaction some_draw one_wallet = Some tx \<and> wallet tx = ''W1'' \<and>
      action_type tx \<in> {''buy'', ''sell''} \<and> 10 \<le> amount tx \<and> amount tx \<le> 1000 \<and>
      protocol tx \<in> {''Jupiter'', ''Raydium'', ''Orca'', ''Saber'', ''Serum''})"
proof -
  have wallets: "tracked_wallets one_wallet \<noteq> []" by (simp add: one_wallet_cache)
  from mock_transaction_fields [OF wallets, of some_draw] obtain tx where
    "mock_transaction some_draw one_wallet = Some tx"
    "\<forall>w. tracked_wallets one_wallet = [w] \<longrightarrow> wallet tx = w"
    "action_type tx \<in> {''buy'', ''sell''}" "10 \<le> amount tx" "amount tx \<le> 1000"
    "protocol tx \<in> {''Jupiter'', ''Raydium'', ''Orca'', ''Saber'', ''Serum''}"
    by blast
  then show ?thesis using one_wallet_cache by blast
qed

end
